theory Spec2Isabelle
  imports Complex_Main
begin

section \<open>Python values\<close>

text \<open>
  Modelled from the spec: \<^verbatim>\<open>EnumValue\<close> is declared in another module. It is a
  stored record with a primary key and a single scalar label, the column \<^verbatim>\<open>value\<close>.
  An instance that has not been saved has no primary key.
\<close>

record enum_value =
  ev_pk :: "nat option"
  ev_value :: string

text \<open>
  The raw values handed to \<^verbatim>\<open>validate_value\<close> and \<^verbatim>\<open>save_value\<close>. Python's
  \<^verbatim>\<open>None\<close>, \<^verbatim>\<open>bool\<close>, unbounded \<^verbatim>\<open>int\<close>, \<^verbatim>\<open>str\<close>, \<^verbatim>\<open>list\<close> and
  \<^verbatim>\<open>EnumValue\<close> instances are represented. A finite \<^verbatim>\<open>float\<close> is represented by
  the rational number it denotes, and the float NaN, which compares unequal to
  everything and to itself, by \<open>PNaN\<close>; the infinities are not represented.
\<close>

datatype pyval =
    PNone
  | PBool bool
  | PInt int
  | PFloat rat
  | PNaN
  | PStr string
  | PList "pyval list"
  | PEnumValue enum_value

text \<open>
  The numeric reading of a value: \<^verbatim>\<open>bool\<close> is a subclass of \<^verbatim>\<open>int\<close>. NaN has none,
  so that no comparison with it holds.
\<close>

fun py_num :: "pyval \<Rightarrow> rat option" where
  "py_num (PBool b) = Some (if b then 1 else 0)"
| "py_num (PInt i) = Some (of_int i)"
| "py_num (PFloat q) = Some q"
| "py_num _ = None"

text \<open>
  \<^verbatim>\<open>Model.__eq__\<close> of Django: equal primary keys; an instance without a primary
  key equals only itself.
\<close>

definition model_eq :: "enum_value \<Rightarrow> enum_value \<Rightarrow> bool" where
  "model_eq a b = (case ev_pk a of None \<Rightarrow> a = b | Some i \<Rightarrow> ev_pk b = Some i)"

text \<open>
  Python's \<^verbatim>\<open>==\<close>: numbers compare by value across \<^verbatim>\<open>bool\<close>, \<^verbatim>\<open>int\<close> and
  \<^verbatim>\<open>float\<close>; strings only equal strings; lists compare element by element;
  \<^verbatim>\<open>None\<close> only equals \<^verbatim>\<open>None\<close>.
\<close>

fun py_eq :: "pyval \<Rightarrow> pyval \<Rightarrow> bool"
  and py_eq_list :: "pyval list \<Rightarrow> pyval list \<Rightarrow> bool" where
  "py_eq PNone PNone = True"
| "py_eq (PStr s) (PStr t) = (s = t)"
| "py_eq (PList xs) (PList ys) = py_eq_list xs ys"
| "py_eq (PEnumValue a) (PEnumValue b) = model_eq a b"
| "py_eq x y = (case (py_num x, py_num y) of (Some p, Some q) \<Rightarrow> p = q | _ \<Rightarrow> False)"
| "py_eq_list [] [] = True"
| "py_eq_list (x # xs) (y # ys) = (py_eq x y \<and> py_eq_list xs ys)"
| "py_eq_list _ _ = False"

text \<open>
  \<^verbatim>\<open>a != b\<close>. The two operands are different objects wherever the module compares
  (a value handed in against a value read from the store), so a list holding NaN
  differs from a list holding NaN.
\<close>

definition py_ne :: "pyval \<Rightarrow> pyval \<Rightarrow> bool" where
  "py_ne a b = (\<not> py_eq a b)"

text \<open>The value is not NaN and holds no NaN.\<close>

fun nan_free :: "pyval \<Rightarrow> bool" where
  "nan_free PNaN = False"
| "nan_free (PList xs) = (\<forall>x \<in> set xs. nan_free x)"
| "nan_free _ = True"

text \<open>
  \<^verbatim>\<open>str(value)\<close>. Strings, integers (in decimal), booleans, \<^verbatim>\<open>None\<close> and NaN are
  rendered here; how Python renders the other values (finite floats, lists, model
  instances) is the parameter \<open>other\<close>.
\<close>

definition digit_char :: "nat \<Rightarrow> char" where
  "digit_char d = ''0123456789'' ! d"

function digits :: "nat \<Rightarrow> string" where
  "digits n = (if n < 10 then [digit_char n] else digits (n div 10) @ [digit_char (n mod 10)])"
  by pat_completeness auto
termination
  by (relation "measure id") auto

declare digits.simps [simp del]

definition str_int :: "int \<Rightarrow> string" where
  "str_int i = (if i < 0 then CHR ''-'' # digits (nat (- i)) else digits (nat i))"

fun py_str :: "(pyval \<Rightarrow> string) \<Rightarrow> pyval \<Rightarrow> string" where
  "py_str other (PStr s) = s"
| "py_str other (PInt i) = str_int i"
| "py_str other (PBool b) = (if b then ''True'' else ''False'')"
| "py_str other PNone = ''None''"
| "py_str other PNaN = ''nan''"
| "py_str other v = other v"

section \<open>Enum groups and attributes\<close>

text \<open>
  Modelled from the spec: \<^verbatim>\<open>EnumGroup\<close> is declared in another module. It has a name
  and its members, the relation \<^verbatim>\<open>values\<close>.
\<close>

record enum_group =
  eg_pk :: "nat option"
  eg_name :: string
  eg_values :: "enum_value list"

text \<open>
  The fields of \<^verbatim>\<open>Attribute\<close>. \<^verbatim>\<open>id\<close> is \<open>pk\<close> (an attribute that has not been
  saved has none), \<^verbatim>\<open>datatype\<close> is \<open>attr_datatype\<close>, and the foreign key
  \<^verbatim>\<open>enum_group\<close> holds the group it refers to. Times are natural numbers.
\<close>

record attribute =
  pk :: "nat option"
  attr_datatype :: string
  name :: string
  slug :: "string option"
  required :: bool
  enum_group :: "enum_group option"
  description :: "string option"
  display_order :: nat
  modified :: nat
  created :: nat

section \<open>Errors\<close>

text \<open>
  The exceptions of the module, as values. A \<^verbatim>\<open>ValidationError\<close> carries the
  message template and the dictionary the template is formatted with
  (\<^verbatim>\<open>template % {'val': value, 'attr': self}\<close>); the arguments are kept as the
  objects themselves.
\<close>

datatype fmt_arg = ArgVal pyval | ArgAttr attribute

datatype error =
    ValidationError string "(string \<times> fmt_arg) list"
  | KeyError string
  | AttributeError string
  | DoesNotExist
  | MultipleObjectsReturned
  | ValueError
  | IntegrityError string

section \<open>Attribute: datatypes and validator dispatch\<close>

definition TYPE_TEXT :: string where "TYPE_TEXT = ''text''"
definition TYPE_FLOAT :: string where "TYPE_FLOAT = ''float''"
definition TYPE_INT :: string where "TYPE_INT = ''int''"
definition TYPE_DATE :: string where "TYPE_DATE = ''date''"
definition TYPE_BOOLEAN :: string where "TYPE_BOOLEAN = ''bool''"
definition TYPE_OBJECT :: string where "TYPE_OBJECT = ''object''"
definition TYPE_ENUM :: string where "TYPE_ENUM = ''enum''"
definition TYPE_JSON :: string where "TYPE_JSON = ''json''"
definition TYPE_CSV :: string where "TYPE_CSV = ''csv''"

definition DATATYPE_CHOICES :: "(string \<times> string) list" where
  "DATATYPE_CHOICES =
    [(TYPE_TEXT, ''Text''),
     (TYPE_DATE, ''Date''),
     (TYPE_FLOAT, ''Float''),
     (TYPE_INT, ''Integer''),
     (TYPE_BOOLEAN, ''True / False''),
     (TYPE_OBJECT, ''Django Object''),
     (TYPE_ENUM, ''Multiple Choice''),
     (TYPE_JSON, ''JSON Object''),
     (TYPE_CSV, ''Comma-Separated-Value'')]"

text \<open>
  The validator functions are imported from \<^verbatim>\<open>eav.validators\<close>; the module only
  refers to them by name.
\<close>

datatype validator =
    validate_text
  | validate_float
  | validate_int
  | validate_date
  | validate_bool
  | validate_object
  | validate_enum
  | validate_json
  | validate_csv

definition DATATYPE_VALIDATORS :: "(string \<times> validator) list" where
  "DATATYPE_VALIDATORS =
    [(''text'', validate_text),
     (''float'', validate_float),
     (''int'', validate_int),
     (''date'', validate_date),
     (''bool'', validate_bool),
     (''object'', validate_object),
     (''enum'', validate_enum),
     (''json'', validate_json),
     (''csv'', validate_csv)]"

text \<open>
  \<^verbatim>\<open>return [DATATYPE_VALIDATORS[self.datatype]]\<close>: a dictionary lookup, which raises
  \<^verbatim>\<open>KeyError\<close> on a key that is not in the dictionary.
\<close>

definition get_validators :: "attribute \<Rightarrow> error + validator list" where
  "get_validators self =
    (case map_of DATATYPE_VALIDATORS (attr_datatype self) of
       None \<Rightarrow> Inl (KeyError (attr_datatype self))
     | Some v \<Rightarrow> Inr [v])"

section \<open>Attribute: clean and get\_choices\<close>

definition MSG_MUST_SET_GROUP :: string where
  "MSG_MUST_SET_GROUP = ''You must set the choice group for multiple choice attributes''"

definition MSG_ONLY_ENUM_GROUP :: string where
  "MSG_ONLY_ENUM_GROUP = ''You can only assign a choice group to multiple choice attributes''"

text \<open>
  \<^verbatim>\<open>not self.enum_group\<close>: the foreign key is either \<^verbatim>\<open>None\<close> or a model instance,
  and a model instance is truthy.
\<close>

definition clean :: "attribute \<Rightarrow> error + unit" where
  "clean self =
    (if attr_datatype self = TYPE_ENUM \<and> enum_group self = None then
       Inl (ValidationError MSG_MUST_SET_GROUP [])
     else if attr_datatype self \<noteq> TYPE_ENUM \<and> enum_group self \<noteq> None then
       Inl (ValidationError MSG_ONLY_ENUM_GROUP [])
     else Inr ())"

text \<open>
  \<^verbatim>\<open>self.enum_group.values.all() if self.datatype == Attribute.TYPE_ENUM else None\<close>.
  Reading \<^verbatim>\<open>.values\<close> of \<^verbatim>\<open>None\<close> raises \<^verbatim>\<open>AttributeError\<close>.
\<close>

definition get_choices :: "attribute \<Rightarrow> error + enum_value list option" where
  "get_choices self =
    (if attr_datatype self = TYPE_ENUM then
       (case enum_group self of
          None \<Rightarrow> Inl (AttributeError ''values'')
        | Some g \<Rightarrow> Inr (Some (eg_values g)))
     else Inr None)"

section \<open>Attribute: validate\_value\<close>

text \<open>
  The bodies of the validators live in \<^verbatim>\<open>eav.validators\<close>; what a validator does
  with a value is a parameter \<open>run\<close> of the model. A validator either returns or raises.
  The loop \<^verbatim>\<open>for validator in self.get_validators(): validator(value)\<close> stops at the
  first validator that raises.
\<close>

fun run_validators :: "(validator \<Rightarrow> pyval \<Rightarrow> error + unit) \<Rightarrow> validator list \<Rightarrow> pyval \<Rightarrow> error + unit" where
  "run_validators run [] v = Inr ()"
| "run_validators run (f # fs) v =
    (case run f v of Inl e \<Rightarrow> Inl e | Inr _ \<Rightarrow> run_validators run fs v)"

text \<open>\<^verbatim>\<open>if isinstance(value, EnumValue): value = value.value\<close>\<close>

definition enum_label :: "pyval \<Rightarrow> pyval" where
  "enum_label v = (case v of PEnumValue e \<Rightarrow> PStr (ev_value e) | _ \<Rightarrow> v)"

text \<open>
  What a lookup on the character column \<^verbatim>\<open>value\<close> compares the column with: the
  value itself when it is a string, and \<^verbatim>\<open>str(value)\<close> when it is not. A lookup for
  \<^verbatim>\<open>None\<close> asks for rows without a label instead.
\<close>

definition lookup_text :: "(pyval \<Rightarrow> string) \<Rightarrow> pyval \<Rightarrow> string option" where
  "lookup_text other v = (if v = PNone then None else Some (py_str other v))"

text \<open>
  \<^verbatim>\<open>self.enum_group.values.filter(value=value).exists()\<close>: some member of the group
  has the label the lookup compares with. Every member has a label, so a lookup for
  \<^verbatim>\<open>None\<close> finds nothing.
\<close>

definition group_has_value :: "(pyval \<Rightarrow> string) \<Rightarrow> enum_group \<Rightarrow> pyval \<Rightarrow> bool" where
  "group_has_value other g v =
    (case lookup_text other v of
       None \<Rightarrow> False
     | Some s \<Rightarrow> filter (\<lambda>m. ev_value m = s) (eg_values g) \<noteq> [])"

definition MSG_NOT_A_CHOICE :: string where
  "MSG_NOT_A_CHOICE = ''%(val)s is not a valid choice for %(attr)s''"

definition validate_value :: "(validator \<Rightarrow> pyval \<Rightarrow> error + unit) \<Rightarrow> (pyval \<Rightarrow> string) \<Rightarrow> attribute \<Rightarrow> pyval \<Rightarrow> error + unit" where
  "validate_value run other self v0 =
    (case get_validators self of
       Inl e \<Rightarrow> Inl e
     | Inr fs \<Rightarrow>
        (case run_validators run fs v0 of
           Inl e \<Rightarrow> Inl e
         | Inr _ \<Rightarrow>
            if attr_datatype self = TYPE_ENUM then
              (let v = enum_label v0 in
               case enum_group self of
                 None \<Rightarrow> Inl (AttributeError ''values'')
               | Some g \<Rightarrow>
                  if \<not> group_has_value other g v then
                    Inl (ValidationError MSG_NOT_A_CHOICE [(''val'', ArgVal v), (''attr'', ArgAttr self)])
                  else Inr ())
            else Inr ()))"

section \<open>Attribute: save\<close>

text \<open>The table of persisted attributes, with the next primary key the store hands out.\<close>

record attribute_table =
  attr_rows :: "attribute list"
  attr_next_pk :: nat

text \<open>
  Modelled from the spec: \<^verbatim>\<open>full_clean\<close> is the store framework's validation entry
  point, not part of the module. The spec has \<^verbatim>\<open>save\<close> "run the full invariant check
  before allowing the write to reach the store"; the invariant check of the module is
  \<^verbatim>\<open>clean\<close>. Field-level validation of the framework is not represented.
\<close>

definition full_clean :: "attribute \<Rightarrow> error + unit" where
  "full_clean self = clean self"

text \<open>The slug of the attribute is held by another row of the table.\<close>

definition slug_taken :: "attribute \<Rightarrow> attribute_table \<Rightarrow> bool" where
  "slug_taken self t = (\<exists>r \<in> set (attr_rows t). slug r = slug self \<and> pk r \<noteq> pk self)"

text \<open>
  Modelled from the spec: \<^verbatim>\<open>super().save()\<close>, the write to the store. The store
  keeps \<^verbatim>\<open>slug\<close> unique (\<^verbatim>\<open>unique=True\<close> on the field): a write whose slug is held
  by another row is refused with a persistence error and changes nothing. Otherwise
  a row without primary key is inserted under a fresh key, and a row with a primary
  key replaces the stored row of that key (or is inserted when there is none).
  \<^verbatim>\<open>modified\<close> has \<^verbatim>\<open>auto_now=True\<close> and is set to the time of the write.
\<close>

definition model_save :: "nat \<Rightarrow> attribute \<Rightarrow> attribute_table \<Rightarrow> (error + unit) \<times> attribute \<times> attribute_table" where
  "model_save now self t =
    (let self1 = self\<lparr>modified := now\<rparr> in
     if slug_taken self1 t then
       (Inl (IntegrityError ''slug''), self1, t)
     else
       (case pk self1 of
          None \<Rightarrow>
            (let self2 = self1\<lparr>pk := Some (attr_next_pk t)\<rparr> in
             (Inr (), self2,
              t\<lparr>attr_rows := attr_rows t @ [self2], attr_next_pk := Suc (attr_next_pk t)\<rparr>))
        | Some i \<Rightarrow>
            if \<exists>r \<in> set (attr_rows t). pk r = Some i then
              (Inr (), self1,
               t\<lparr>attr_rows := map (\<lambda>r. if pk r = Some i then self1 else r) (attr_rows t)\<rparr>)
            else (Inr (), self1, t\<lparr>attr_rows := attr_rows t @ [self1]\<rparr>)))"

text \<open>
  \<^verbatim>\<open>Attribute.save\<close>. \<^verbatim>\<open>generate_slug\<close> comes from \<^verbatim>\<open>eav.logic.slug\<close> and is the
  parameter \<open>generate_slug\<close>. \<^verbatim>\<open>not self.slug\<close> holds for \<^verbatim>\<open>None\<close> and for the empty
  string. The result is the outcome, the attribute object as the call leaves it, and
  the table.
\<close>

definition save :: "(string \<Rightarrow> string) \<Rightarrow> nat \<Rightarrow> attribute \<Rightarrow> attribute_table \<Rightarrow> (error + unit) \<times> attribute \<times> attribute_table" where
  "save generate_slug now self t =
    (let self1 = (if slug self = None \<or> slug self = Some [] then
                    self\<lparr>slug := Some (generate_slug (name self))\<rparr>
                  else self) in
     case full_clean self1 of
       Inl e \<Rightarrow> (Inl e, self1, t)
     | Inr _ \<Rightarrow> model_save now self1 t)"

text \<open>
  What the store guarantees of the attribute table: every row has a primary key, no
  two rows share one, and no two rows share a slug.
\<close>

definition attribute_table_ok :: "attribute_table \<Rightarrow> bool" where
  "attribute_table_ok t =
    (distinct (map pk (attr_rows t)) \<and> None \<notin> set (map pk (attr_rows t)) \<and>
     distinct (map slug (attr_rows t)))"

section \<open>Value rows and the value table\<close>

text \<open>
  Modelled from the spec: the \<^verbatim>\<open>Value\<close> model is declared in another module. A row
  has its own primary key, the identity fields (content type of the entity, owning
  attribute, and the entity's primary key in the column that fits the key's shape),
  the payload, and the timestamps. The payload \<open>val\<close> is what the property
  \<^verbatim>\<open>Value.value\<close> reads and writes: the slot selected by the owning attribute's
  datatype; an unset slot is \<^verbatim>\<open>None\<close>.
\<close>

record value_row =
  value_pk :: nat
  entity_ct :: nat
  attribute_id :: nat
  entity_id :: "int option"
  entity_uuid :: "string option"
  val :: pyval
  value_created :: nat
  value_modified :: nat

record value_table =
  value_rows :: "value_row list"
  value_next_pk :: nat

text \<open>
  A host entity, as far as this layer sees it: the content type
  \<^verbatim>\<open>ContentType.objects.get_for_model(entity)\<close> resolves to, and \<^verbatim>\<open>entity.pk\<close>.
\<close>

datatype pk_value = IntPk int | UuidPk string

record entity =
  content_type :: nat
  entity_pk :: pk_value

text \<open>
  Modelled from the spec: \<^verbatim>\<open>get_entity_pk_type\<close> names the \<^verbatim>\<open>Value\<close> column the
  entity's key is matched against: \<^verbatim>\<open>entity_uuid\<close> for a UUID key, \<^verbatim>\<open>entity_id\<close>
  otherwise.
\<close>

definition get_entity_pk_type :: "entity \<Rightarrow> string" where
  "get_entity_pk_type e = (case entity_pk e of UuidPk _ \<Rightarrow> ''entity_uuid'' | IntPk _ \<Rightarrow> ''entity_id'')"

text \<open>
  The dictionary \<^verbatim>\<open>entity_filter\<close>: content type, attribute, and the entity's key
  under the column name \<^verbatim>\<open>get_entity_pk_type\<close> returns.
\<close>

record entity_filter =
  flt_entity_ct :: nat
  flt_attribute :: nat
  flt_pk_column :: string
  flt_pk :: pk_value

definition make_entity_filter :: "nat \<Rightarrow> entity \<Rightarrow> entity_filter" where
  "make_entity_filter attr_pk e =
    \<lparr>flt_entity_ct = content_type e, flt_attribute = attr_pk,
     flt_pk_column = get_entity_pk_type e, flt_pk = entity_pk e\<rparr>"

text \<open>The content of a key column of a row, by column name.\<close>

definition pk_column :: "string \<Rightarrow> value_row \<Rightarrow> pk_value option" where
  "pk_column c r =
    (if c = ''entity_uuid'' then map_option UuidPk (entity_uuid r)
     else map_option IntPk (entity_id r))"

text \<open>A row matches the filter when all three fields agree.\<close>

definition matches :: "entity_filter \<Rightarrow> value_row \<Rightarrow> bool" where
  "matches flt r =
    (entity_ct r = flt_entity_ct flt \<and> attribute_id r = flt_attribute flt \<and>
     pk_column (flt_pk_column flt) r = Some (flt_pk flt))"

text \<open>
  Modelled from the spec: the record store is an external collaborator offering
  create, get by exact match on a set of fields, update and delete. The four
  operations \<^verbatim>\<open>save_value\<close> calls follow.
\<close>

text \<open>
  \<^verbatim>\<open>self.value_set.get(**entity_filter)\<close>: the one matching row; \<^verbatim>\<open>DoesNotExist\<close>
  when there is none, \<^verbatim>\<open>MultipleObjectsReturned\<close> when there are several.
\<close>

definition value_set_get :: "entity_filter \<Rightarrow> value_table \<Rightarrow> error + value_row" where
  "value_set_get flt t =
    (case filter (matches flt) (value_rows t) of
       [] \<Rightarrow> Inl DoesNotExist
     | [r] \<Rightarrow> Inr r
     | _ \<Rightarrow> Inl MultipleObjectsReturned)"

text \<open>
  \<^verbatim>\<open>Value.objects.create(**entity_filter)\<close>: builds a row from the filter's fields and
  inserts it at once; the payload has not been set and is \<^verbatim>\<open>None\<close>. It returns the
  new object.
\<close>

definition objects_create :: "nat \<Rightarrow> entity_filter \<Rightarrow> value_table \<Rightarrow> value_row \<times> value_table" where
  "objects_create now flt t =
    (let r = \<lparr>value_pk = value_next_pk t,
              entity_ct = flt_entity_ct flt,
              attribute_id = flt_attribute flt,
              entity_id = (case flt_pk flt of IntPk n \<Rightarrow>
                             if flt_pk_column flt = ''entity_uuid'' then None else Some n
                           | UuidPk _ \<Rightarrow> None),
              entity_uuid = (case flt_pk flt of UuidPk u \<Rightarrow>
                               if flt_pk_column flt = ''entity_uuid'' then Some u else None
                             | IntPk _ \<Rightarrow> None),
              val = PNone,
              value_created = now,
              value_modified = now\<rparr>
     in (r, t\<lparr>value_rows := value_rows t @ [r], value_next_pk := Suc (value_next_pk t)\<rparr>))"

text \<open>\<^verbatim>\<open>value_obj.delete()\<close>: removes the row with the object's primary key.\<close>

definition value_delete :: "value_row \<Rightarrow> value_table \<Rightarrow> value_table" where
  "value_delete obj t = t\<lparr>value_rows := filter (\<lambda>r. value_pk r \<noteq> value_pk obj) (value_rows t)\<rparr>"

text \<open>
  \<^verbatim>\<open>value_obj.save()\<close>: writes the object over the stored row with its primary key
  (inserting it when no row has that key) and stamps \<^verbatim>\<open>modified\<close> with the time of
  the write.
\<close>

definition value_save :: "nat \<Rightarrow> value_row \<Rightarrow> value_table \<Rightarrow> value_table" where
  "value_save now obj t =
    (let obj1 = obj\<lparr>value_modified := now\<rparr> in
     if \<exists>r \<in> set (value_rows t). value_pk r = value_pk obj1 then
       t\<lparr>value_rows := map (\<lambda>r. if value_pk r = value_pk obj1 then obj1 else r) (value_rows t)\<rparr>
     else t\<lparr>value_rows := value_rows t @ [obj1]\<rparr>)"

section \<open>Attribute: save\_value\<close>

text \<open>\<^verbatim>\<open>value is None or value == ''\<close>\<close>

definition is_empty :: "pyval \<Rightarrow> bool" where
  "is_empty v = (v = PNone \<or> py_eq v (PStr []))"

text \<open>
  The part of \<^verbatim>\<open>save_value\<close> after the \<^verbatim>\<open>try\<close> statement, run with the object that
  was found or created.
\<close>

definition save_value_found :: "nat \<Rightarrow> pyval \<Rightarrow> value_row \<Rightarrow> value_table \<Rightarrow> (error + unit) \<times> value_table" where
  "save_value_found now v value_obj t =
    (if is_empty v then (Inr (), value_delete value_obj t)
     else if py_ne v (val value_obj) then (Inr (), value_save now (value_obj\<lparr>val := v\<rparr>) t)
     else (Inr (), t))"

text \<open>
  \<^verbatim>\<open>Attribute.save_value\<close>, at time \<open>now\<close>. The related manager \<^verbatim>\<open>self.value_set\<close> of
  an attribute that has no primary key raises \<^verbatim>\<open>ValueError\<close>. Only
  \<^verbatim>\<open>Value.DoesNotExist\<close> is caught; any other exception of the lookup leaves the
  function. The result is the outcome and the table as the call leaves it.
\<close>

definition save_value :: "nat \<Rightarrow> attribute \<Rightarrow> entity \<Rightarrow> pyval \<Rightarrow> value_table \<Rightarrow> (error + unit) \<times> value_table" where
  "save_value now self e v t =
    (case pk self of
       None \<Rightarrow> (Inl ValueError, t)
     | Some attr_pk \<Rightarrow>
        (let flt = make_entity_filter attr_pk e in
         case value_set_get flt t of
           Inl DoesNotExist \<Rightarrow>
             if is_empty v then (Inr (), t)
             else (case objects_create now flt t of
                     (value_obj, t1) \<Rightarrow> save_value_found now v value_obj t1)
         | Inl err \<Rightarrow> (Inl err, t)
         | Inr value_obj \<Rightarrow> save_value_found now v value_obj t))"

text \<open>
  The tables the store goes through during a call: one entry after each write
  (\<^verbatim>\<open>create\<close>, \<^verbatim>\<open>delete\<close>, \<^verbatim>\<open>save\<close>), in order.
\<close>

definition save_value_found_trace :: "nat \<Rightarrow> pyval \<Rightarrow> value_row \<Rightarrow> value_table \<Rightarrow> value_table list" where
  "save_value_found_trace now v value_obj t =
    (if is_empty v then [value_delete value_obj t]
     else if py_ne v (val value_obj) then [value_save now (value_obj\<lparr>val := v\<rparr>) t]
     else [])"

definition save_value_trace :: "nat \<Rightarrow> attribute \<Rightarrow> entity \<Rightarrow> pyval \<Rightarrow> value_table \<Rightarrow> value_table list" where
  "save_value_trace now self e v t =
    (case pk self of
       None \<Rightarrow> []
     | Some attr_pk \<Rightarrow>
        (let flt = make_entity_filter attr_pk e in
         case value_set_get flt t of
           Inl DoesNotExist \<Rightarrow>
             if is_empty v then []
             else (case objects_create now flt t of
                     (value_obj, t1) \<Rightarrow> t1 # save_value_found_trace now v value_obj t1)
         | Inl err \<Rightarrow> []
         | Inr value_obj \<Rightarrow> save_value_found_trace now v value_obj t))"


text \<open>
  A row has the composite identity of an attribute and an entity: its attribute field
  is the attribute's primary key, its content type is the entity's type tag, and the
  key column for the shape of the entity's primary key holds that key. This is read
  off the fields of the row, not off the filter the function builds.
\<close>

definition has_identity :: "nat \<Rightarrow> entity \<Rightarrow> value_row \<Rightarrow> bool" where
  "has_identity attr_pk e r =
    (attribute_id r = attr_pk \<and> entity_ct r = content_type e \<and>
     (case entity_pk e of
        IntPk n \<Rightarrow> entity_id r = Some n
      | UuidPk u \<Rightarrow> entity_uuid r = Some u))"

text \<open>The rows of the table with the identity of an attribute and an entity.\<close>

definition rows_for :: "attribute \<Rightarrow> entity \<Rightarrow> value_table \<Rightarrow> value_row list" where
  "rows_for self e t =
    (case pk self of
       None \<Rightarrow> []
     | Some attr_pk \<Rightarrow> filter (has_identity attr_pk e) (value_rows t))"

text \<open>
  What the store guarantees of the table itself: primary keys are unique, and every
  key in use is below the next key it hands out.
\<close>

definition table_ok :: "value_table \<Rightarrow> bool" where
  "table_ok t =
    (distinct (map value_pk (value_rows t)) \<and>
     (\<forall>r \<in> set (value_rows t). value_pk r < value_next_pk t))"

section \<open>Scenario data\<close>

text \<open>
  The integer attribute "Height" and the patient of the spec's scenario, a row for
  that pair holding a given payload, and a table holding given rows.
\<close>

definition ex_height :: attribute where
  "ex_height = \<lparr>pk = Some 1, attr_datatype = ''int'', name = ''Height'', slug = Some ''height'',
     required = False, enum_group = None, description = None, display_order = 1,
     modified = 0, created = 0\<rparr>"

definition ex_patient1 :: entity where
  "ex_patient1 = \<lparr>content_type = 7, entity_pk = IntPk 1\<rparr>"

definition ex_row :: "pyval \<Rightarrow> value_row" where
  "ex_row v = \<lparr>value_pk = 1, entity_ct = 7, attribute_id = 1, entity_id = Some 1,
     entity_uuid = None, val = v, value_created = 10, value_modified = 10\<rparr>"

definition ex_table :: "value_row list \<Rightarrow> value_table" where
  "ex_table rs = \<lparr>value_rows = rs, value_next_pk = 2\<rparr>"

definition ex_empty_table :: value_table where
  "ex_empty_table = \<lparr>value_rows = [], value_next_pk = 1\<rparr>"

text \<open>
  The enum attribute "has fever?" of the spec's scenario with its group of three
  choices, and a table holding both attributes.
\<close>

definition ex_yes :: enum_value where
  "ex_yes = \<lparr>ev_pk = Some 1, ev_value = ''yes''\<rparr>"

definition ex_no :: enum_value where
  "ex_no = \<lparr>ev_pk = Some 2, ev_value = ''no''\<rparr>"

definition ex_unknown :: enum_value where
  "ex_unknown = \<lparr>ev_pk = Some 3, ev_value = ''unknown''\<rparr>"

definition ex_ynu :: enum_group where
  "ex_ynu = \<lparr>eg_pk = Some 1, eg_name = ''Yes / No / Unknown'',
     eg_values = [ex_yes, ex_no, ex_unknown]\<rparr>"

definition ex_fever :: attribute where
  "ex_fever = \<lparr>pk = Some 2, attr_datatype = ''enum'', name = ''has fever?'',
     slug = Some ''has_fever'', required = False, enum_group = Some ex_ynu,
     description = None, display_order = 1, modified = 0, created = 0\<rparr>"

definition ex_attributes :: attribute_table where
  "ex_attributes = \<lparr>attr_rows = [ex_height, ex_fever], attr_next_pk = 3\<rparr>"

text \<open>A behaviour of the validators that accepts every value.\<close>

definition accept_all :: "validator \<Rightarrow> pyval \<Rightarrow> error + unit" where
  "accept_all f v = Inr ()"

text \<open>
  A behaviour of the validators in which the enum validator refuses an \<^verbatim>\<open>EnumValue\<close>
  that has not been saved, and everything else is accepted.
\<close>

definition reject_unsaved :: "validator \<Rightarrow> pyval \<Rightarrow> error + unit" where
  "reject_unsaved f v =
    (case (f, v) of
       (validate_enum, PEnumValue ev) \<Rightarrow>
         if ev_pk ev = None then Inl (ValidationError ''EnumValue has not been saved yet'' [])
         else Inr ()
     | _ \<Rightarrow> Inr ())"

text \<open>
  A rendering for the values \<open>py_str\<close> leaves open; the examples render none of them.
\<close>

definition ex_repr :: "pyval \<Rightarrow> string" where
  "ex_repr v = []"

text \<open>An enum attribute whose choices are labelled with the digits 1 and 2.\<close>

definition ex_rating :: attribute where
  "ex_rating = \<lparr>pk = Some 4, attr_datatype = ''enum'', name = ''Rating'',
     slug = Some ''rating'', required = False,
     enum_group = Some \<lparr>eg_pk = Some 2, eg_name = ''Rating'',
       eg_values = [\<lparr>ev_pk = Some 4, ev_value = ''1''\<rparr>, \<lparr>ev_pk = Some 5, ev_value = ''2''\<rparr>]\<rparr>,
     description = None, display_order = 1, modified = 0, created = 0\<rparr>"

text \<open>
  A slug function for the examples (blanks become underscores), an attribute that
  has not been saved and has no slug, and the row its first save writes at time 20.
\<close>

definition ex_slugify :: "string \<Rightarrow> string" where
  "ex_slugify n = map (\<lambda>c. if c = CHR '' '' then CHR ''_'' else c) n"

definition ex_new_attribute :: "string \<Rightarrow> attribute" where
  "ex_new_attribute n = \<lparr>pk = None, attr_datatype = ''text'', name = n, slug = None,
     required = False, enum_group = None, description = None, display_order = 1,
     modified = 0, created = 15\<rparr>"

definition ex_eye_color :: attribute where
  "ex_eye_color = \<lparr>pk = Some 3, attr_datatype = ''text'', name = ''Eye Color'',
     slug = Some ''Eye_Color'', required = False, enum_group = None, description = None,
     display_order = 1, modified = 20, created = 15\<rparr>"

section \<open>Facts about Python equality\<close>


lemma py_eq_list_refl: "(\<forall>x \<in> set xs. py_eq x x) \<Longrightarrow> py_eq_list xs xs"
  by (induction xs) auto

lemma py_eq_refl: "nan_free v \<Longrightarrow> py_eq v v"
  by (induction v) (auto simp: model_eq_def py_eq_list_refl split: option.splits)

lemma py_eq_list_same: "py_eq_list xs xs \<Longrightarrow> \<forall>x \<in> set xs. py_eq x x"
  by (induction xs) auto

lemma py_eq_self_nan_free: "py_eq v v \<Longrightarrow> nan_free v"
  by (induction v) (auto dest: py_eq_list_same)

lemma py_eq_nan: "\<not> py_eq PNaN v" "\<not> py_eq v PNaN"
  by (cases v; simp)+

lemma py_eq_None_iff: "py_eq v PNone = (v = PNone)"
  by (cases v) auto

lemma py_eq_Str_iff: "py_eq v (PStr s) = (v = PStr s)"
  by (cases v) auto

lemma py_eq_None_left: "py_eq PNone v = (v = PNone)"
  by (cases v) auto

lemma py_eq_Str_left: "py_eq (PStr s) v = (v = PStr s)"
  by (cases v) auto

lemma is_empty_iff: "is_empty v = (v = PNone \<or> v = PStr [])"
  by (simp add: is_empty_def py_eq_Str_iff)

lemma py_eq_keeps_nonempty: "\<not> is_empty v \<Longrightarrow> py_eq v p \<Longrightarrow> \<not> is_empty p"
  by (auto simp: is_empty_iff py_eq_None_iff py_eq_Str_iff)



section \<open>Facts about tables as lists of rows\<close>

lemma map_replace_by_key:
  "distinct (map f xs) \<Longrightarrow> r \<in> set xs \<Longrightarrow>
   map (\<lambda>x. if f x = f r then y else x) xs = map (\<lambda>x. if x = r then y else x) xs"
  by (rule map_cong) (auto simp: distinct_map dest: inj_onD)

lemma filter_replace_single:
  "filter P xs = [r] \<Longrightarrow> P y \<Longrightarrow> filter P (map (\<lambda>x. if x = r then y else x) xs) = [y]"
proof -
  assume a: "filter P xs = [r]" and y: "P y"
  have "r \<in> set (filter P xs)" using a by simp
  then have r: "P r" by simp
  have "filter P (map (\<lambda>x. if x = r then y else x) xs)
        = map (\<lambda>x. if x = r then y else x) (filter (P \<circ> (\<lambda>x. if x = r then y else x)) xs)"
    by (simp add: filter_map)
  also have "filter (P \<circ> (\<lambda>x. if x = r then y else x)) xs = filter P xs"
    by (rule filter_cong) (auto simp: r y)
  finally show ?thesis using a by simp
qed

lemma single_in_table: "filter P xs = [r] \<Longrightarrow> r \<in> set xs \<and> P r"
proof -
  assume "filter P xs = [r]"
  then have "r \<in> set (filter P xs)" by simp
  then show ?thesis by simp
qed

lemma at_most_one_cases:
  "length xs \<le> 1 \<Longrightarrow> xs = [] \<or> (\<exists>r. xs = [r])"
  by (cases xs) auto

text \<open>
  The filter \<^verbatim>\<open>save_value\<close> builds selects exactly the rows with the identity of the
  attribute and the entity.
\<close>

lemma matches_identity:
  "matches (make_entity_filter a e) r = has_identity a e r"
  by (cases "entity_pk e")
     (auto simp: matches_def make_entity_filter_def has_identity_def pk_column_def
        get_entity_pk_type_def)

lemma rows_for_matches:
  "rows_for self e t =
    (case pk self of
       None \<Rightarrow> []
     | Some a \<Rightarrow> filter (matches (make_entity_filter a e)) (value_rows t))"
  by (simp add: rows_for_def matches_identity [abs_def] split: option.splits)

lemma rows_for_Some:
  "pk self = Some a \<Longrightarrow>
   rows_for self e t = filter (matches (make_entity_filter a e)) (value_rows t)"
  by (simp add: rows_for_matches)

section \<open>The paths of save\_value\<close>

lemma save_value_absent_empty:
  "pk self = Some a \<Longrightarrow> rows_for self e t = [] \<Longrightarrow> is_empty v \<Longrightarrow>
   save_value now self e v t = (Inr (), t)"
  by (simp add: save_value_def rows_for_matches value_set_get_def)

lemma matches_created:
  "matches (make_entity_filter a e) (fst (objects_create now (make_entity_filter a e) t))"
  by (auto simp: matches_def make_entity_filter_def objects_create_def Let_def pk_column_def
      get_entity_pk_type_def split: pk_value.splits)

lemma matches_update [simp]:
  "matches flt (r\<lparr>val := v\<rparr>) = matches flt r"
  "matches flt (r\<lparr>value_modified := n\<rparr>) = matches flt r"
  by (simp_all add: matches_def pk_column_def)

lemma fresh_pk_unchanged:
  "\<forall>r \<in> set xs. value_pk r \<noteq> k \<Longrightarrow> map (\<lambda>r. if value_pk r = k then y else r) xs = xs"
  by (induction xs) auto

lemma save_value_absent_set:
  assumes "pk self = Some a" "rows_for self e t = []" "\<not> is_empty v" "table_ok t"
  shows "save_value now self e v t =
    (Inr (), t\<lparr>value_rows := value_rows t @
        [(fst (objects_create now (make_entity_filter a e) t))\<lparr>val := v, value_modified := now\<rparr>],
      value_next_pk := Suc (value_next_pk t)\<rparr>)"
proof -
  have ne: "py_ne v PNone"
    using assms(3) by (simp add: py_ne_def py_eq_None_iff is_empty_iff)
  have fresh: "\<forall>r \<in> set (value_rows t). value_pk r \<noteq> value_next_pk t"
    using assms(4) by (auto simp: table_ok_def)
  show ?thesis
    using assms(1-3) ne fresh
    by (simp add: save_value_def rows_for_matches value_set_get_def objects_create_def Let_def
        save_value_found_def value_save_def fresh_pk_unchanged)
qed

lemma save_value_present_empty:
  "pk self = Some a \<Longrightarrow> rows_for self e t = [r] \<Longrightarrow> is_empty v \<Longrightarrow>
   save_value now self e v t = (Inr (), value_delete r t)"
  by (simp add: save_value_def rows_for_matches value_set_get_def save_value_found_def)

lemma save_value_present_same:
  "pk self = Some a \<Longrightarrow> rows_for self e t = [r] \<Longrightarrow> \<not> is_empty v \<Longrightarrow> py_eq v (val r) \<Longrightarrow>
   save_value now self e v t = (Inr (), t)"
  by (simp add: save_value_def rows_for_matches value_set_get_def save_value_found_def py_ne_def)

lemma save_value_present_differs:
  "pk self = Some a \<Longrightarrow> rows_for self e t = [r] \<Longrightarrow> \<not> is_empty v \<Longrightarrow> \<not> py_eq v (val r) \<Longrightarrow>
   save_value now self e v t = (Inr (), value_save now (r\<lparr>val := v\<rparr>) t)"
  by (simp add: save_value_def rows_for_matches value_set_get_def save_value_found_def py_ne_def)


section \<open>Effects of the writes on the rows of an identity and on the table invariant\<close>

lemma rows_for_delete:
  assumes "pk self = Some a" "rows_for self e t = [r]"
  shows "rows_for self e (value_delete r t) = []"
proof -
  let ?P = "matches (make_entity_filter a e)"
  have "filter ?P (filter (\<lambda>x. value_pk x \<noteq> value_pk r) (value_rows t))
        = filter (\<lambda>x. value_pk x \<noteq> value_pk r) (filter ?P (value_rows t))"
    by (simp add: conj_commute)
  also have "\<dots> = []" using assms by (simp add: rows_for_matches)
  finally show ?thesis using assms(1) by (simp add: rows_for_matches value_delete_def)
qed

lemma table_ok_delete: "table_ok t \<Longrightarrow> table_ok (value_delete r t)"
  by (simp add: table_ok_def value_delete_def distinct_map_filter)

lemma value_save_present:
  assumes "table_ok t" "r \<in> set (value_rows t)" "value_pk obj = value_pk r"
  shows "value_save now obj t =
    t\<lparr>value_rows := map (\<lambda>x. if x = r then obj\<lparr>value_modified := now\<rparr> else x) (value_rows t)\<rparr>"
proof -
  have d: "distinct (map value_pk (value_rows t))" using assms(1) by (simp add: table_ok_def)
  have "map (\<lambda>x. if value_pk x = value_pk r then obj\<lparr>value_modified := now\<rparr> else x) (value_rows t)
      = map (\<lambda>x. if x = r then obj\<lparr>value_modified := now\<rparr> else x) (value_rows t)"
    by (rule map_replace_by_key [OF d assms(2)])
  moreover have "\<exists>x \<in> set (value_rows t). value_pk x = value_pk r" using assms(2) by blast
  ultimately show ?thesis using assms(3) by (simp add: value_save_def Let_def)
qed

lemma rows_for_save:
  assumes "pk self = Some a" "rows_for self e t = [r]" "table_ok t"
  shows "rows_for self e (value_save now (r\<lparr>val := v\<rparr>) t) = [r\<lparr>val := v, value_modified := now\<rparr>]"
proof -
  let ?P = "matches (make_entity_filter a e)"
  have f: "filter ?P (value_rows t) = [r]" using assms(1,2) by (simp add: rows_for_matches)
  have r: "r \<in> set (value_rows t)" "?P r" using single_in_table [OF f] by simp_all
  have "value_save now (r\<lparr>val := v\<rparr>) t =
      t\<lparr>value_rows := map (\<lambda>x. if x = r then r\<lparr>val := v, value_modified := now\<rparr> else x) (value_rows t)\<rparr>"
    using value_save_present [OF assms(3) r(1), of "r\<lparr>val := v\<rparr>" now] by simp
  moreover have "filter ?P (map (\<lambda>x. if x = r then r\<lparr>val := v, value_modified := now\<rparr> else x) (value_rows t))
      = [r\<lparr>val := v, value_modified := now\<rparr>]"
    by (rule filter_replace_single [OF f]) (simp add: r(2))
  ultimately show ?thesis using assms(1) by (simp add: rows_for_matches)
qed

lemma table_ok_save:
  assumes "table_ok t" "r \<in> set (value_rows t)" "value_pk obj = value_pk r"
  shows "table_ok (value_save now obj t)"
proof -
  have "value_pk \<circ> (\<lambda>x. if x = r then obj\<lparr>value_modified := now\<rparr> else x) = value_pk"
    using assms(3) by (auto simp: fun_eq_iff)
  then show ?thesis
    using assms(1,2) value_save_present [OF assms, of now]
    by (auto simp: table_ok_def assms(3))
qed

lemma rows_for_created:
  assumes "pk self = Some a" "rows_for self e t = []"
  shows "rows_for self e (t\<lparr>value_rows := value_rows t @
        [(fst (objects_create now (make_entity_filter a e) t))\<lparr>val := v, value_modified := now\<rparr>],
      value_next_pk := Suc (value_next_pk t)\<rparr>)
    = [(fst (objects_create now (make_entity_filter a e) t))\<lparr>val := v, value_modified := now\<rparr>]"
  using assms matches_created [of a e now t] by (simp add: rows_for_matches)

lemma table_ok_created:
  assumes "table_ok t"
  shows "table_ok (t\<lparr>value_rows := value_rows t @
        [(fst (objects_create now flt t))\<lparr>val := v, value_modified := now\<rparr>],
      value_next_pk := Suc (value_next_pk t)\<rparr>)"
  using assms by (auto simp: table_ok_def objects_create_def Let_def less_Suc_eq)



lemma save_value_trace_last:
  "snd (save_value now self e v t) = last (t # save_value_trace now self e v t)"
  by (simp add: save_value_def save_value_trace_def save_value_found_def
      save_value_found_trace_def Let_def
      split: option.splits sum.splits error.splits prod.splits)

section \<open>One call and sequences of calls\<close>

text \<open>
  From a table with unique primary keys and at most one row for the identity, a call
  returns normally, keeps the keys unique, and leaves no row for the identity when
  the value is empty and exactly one row otherwise, whose payload is the value
  written or a payload found equal to it.
\<close>

lemma save_value_step:
  assumes "pk self = Some a" "table_ok t" "length (rows_for self e t) \<le> 1"
  shows "\<exists>t'. save_value now self e v t = (Inr (), t') \<and> table_ok t' \<and>
     (if is_empty v then rows_for self e t' = []
      else \<exists>r. rows_for self e t' = [r] \<and> (val r = v \<or> py_eq v (val r)))"
proof -
  consider (absent) "rows_for self e t = []" | (present) r where "rows_for self e t = [r]"
    using at_most_one_cases [OF assms(3)] by blast
  then show ?thesis
  proof cases
    case absent
    show ?thesis
    proof (cases "is_empty v")
      case True
      then show ?thesis
        using save_value_absent_empty [OF assms(1) absent True] assms(2) absent by simp
    next
      case False
      then show ?thesis
        using save_value_absent_set [OF assms(1) absent False assms(2), of now]
          rows_for_created [OF assms(1) absent, of now v] table_ok_created [OF assms(2)]
        by simp
    qed
  next
    case present
    have in_t: "r \<in> set (value_rows t)"
      using present assms(1) single_in_table [of "matches (make_entity_filter a e)" "value_rows t" r]
      by (simp add: rows_for_matches)
    show ?thesis
    proof (cases "is_empty v")
      case True
      then show ?thesis
        using save_value_present_empty [OF assms(1) present True]
          rows_for_delete [OF assms(1) present] table_ok_delete [OF assms(2)]
        by simp
    next
      case False
      show ?thesis
      proof (cases "py_eq v (val r)")
        case True
        then show ?thesis
          using save_value_present_same [OF assms(1) present False True] assms(2) present False
          by simp
      next
        case differs: False
        have "table_ok (value_save now (r\<lparr>val := v\<rparr>) t)"
          by (rule table_ok_save [OF assms(2) in_t]) simp
        then show ?thesis
          using save_value_present_differs [OF assms(1) present False differs]
            rows_for_save [OF assms(1) present assms(2), of now v] False
          by simp
      qed
    qed
  qed
qed



text \<open>
  Every row of the table after a call was in the table before, or carries the value
  written, which then is not empty.
\<close>

lemma save_value_rows_origin:
  assumes "pk self = Some a" "table_ok t" "length (rows_for self e t) \<le> 1"
    "save_value now self e v t = (res, t')" "r \<in> set (value_rows t')"
  shows "r \<in> set (value_rows t) \<or> (val r = v \<and> \<not> is_empty v)"
proof -
  consider (absent) "rows_for self e t = []" | (present) r0 where "rows_for self e t = [r0]"
    using at_most_one_cases [OF assms(3)] by blast
  then show ?thesis
  proof cases
    case absent
    show ?thesis
    proof (cases "is_empty v")
      case True
      then show ?thesis
        using save_value_absent_empty [OF assms(1) absent True, of now] assms(4,5) by simp
    next
      case False
      then show ?thesis
        using save_value_absent_set [OF assms(1) absent False assms(2), of now] assms(4,5)
        by auto
    qed
  next
    case present
    have in_t: "r0 \<in> set (value_rows t)"
      using present assms(1) single_in_table [of "matches (make_entity_filter a e)" "value_rows t" r0]
      by (simp add: rows_for_matches)
    show ?thesis
    proof (cases "is_empty v")
      case True
      then show ?thesis
        using save_value_present_empty [OF assms(1) present True, of now] assms(4,5)
        by (auto simp: value_delete_def)
    next
      case False
      show ?thesis
      proof (cases "py_eq v (val r0)")
        case True
        then show ?thesis
          using save_value_present_same [OF assms(1) present False True, of now] assms(4,5)
          by simp
      next
        case differs: False
        have "value_save now (r0\<lparr>val := v\<rparr>) t =
          t\<lparr>value_rows := map (\<lambda>x. if x = r0 then r0\<lparr>val := v, value_modified := now\<rparr> else x)
             (value_rows t)\<rparr>"
          using value_save_present [OF assms(2) in_t, of "r0\<lparr>val := v\<rparr>" now] by simp
        then show ?thesis
          using save_value_present_differs [OF assms(1) present False differs, of now]
            assms(4,5) False
          by (auto split: if_splits)
      qed
    qed
  qed
qed

lemmas ex_defs = ex_height_def ex_patient1_def ex_row_def ex_table_def ex_empty_table_def

lemmas sv_defs = save_value_def save_value_found_def value_set_get_def make_entity_filter_def
  get_entity_pk_type_def matches_def pk_column_def objects_create_def value_delete_def
  value_save_def is_empty_def py_ne_def rows_for_matches table_ok_def Let_def

section \<open>C1: at most one row per identity\<close>




section \<open>C2: an empty write deletes or does nothing\<close>

text \<open>
  C2. For a saved attribute and a table with at most one row with the identity of the
  attribute and the entity (attribute, content type and entity key, read off the
  row), \<^verbatim>\<open>save_value(E, None)\<close> and \<^verbatim>\<open>save_value(E, "")\<close> return normally and leave
  no row with that identity. When there was none the table is unchanged (nothing is
  created). When there was one, the table is the old one with that row deleted; it
  is the row of that attribute and entity, and in a table with unique primary keys
  every other row stays as it was.
\<close>

theorem save_value_empty_leaves_none:
  assumes "pk self = Some a" "length (rows_for self e t) \<le> 1" "v = PNone \<or> v = PStr []"
  shows "\<exists>t'. save_value now self e v t = (Inr (), t') \<and> rows_for self e t' = [] \<and>
           (rows_for self e t = [] \<longrightarrow> t' = t) \<and>
           (\<forall>r. rows_for self e t = [r] \<longrightarrow>
              t' = value_delete r t \<and> has_identity a e r \<and>
              (table_ok t \<longrightarrow> value_rows t' = removeAll r (value_rows t)))"
proof -
  have emp: "is_empty v" using assms(3) by (simp add: is_empty_iff)
  consider (absent) "rows_for self e t = []" | (present) r where "rows_for self e t = [r]"
    using at_most_one_cases [OF assms(2)] by blast
  then show ?thesis
  proof cases
    case absent
    then show ?thesis
      using save_value_absent_empty [OF assms(1) absent emp, of now] by simp
  next
    case present
    have "r \<in> set (filter (has_identity a e) (value_rows t))"
      using present assms(1) by (simp add: rows_for_def)
    then have r: "r \<in> set (value_rows t)" "has_identity a e r" by simp_all
    have "value_rows (value_delete r t) = removeAll r (value_rows t)" if ok: "table_ok t"
    proof -
      have d: "distinct (map value_pk (value_rows t))" using ok by (simp add: table_ok_def)
      have "filter (\<lambda>x. value_pk x \<noteq> value_pk r) (value_rows t)
          = filter (\<lambda>x. x \<noteq> r) (value_rows t)"
        by (rule filter_cong) (use d r(1) in \<open>auto simp: distinct_map dest: inj_onD\<close>)
      then show ?thesis by (simp add: value_delete_def removeAll_filter_not_eq) metis
    qed
    then show ?thesis
      using save_value_present_empty [OF assms(1) present emp, of now]
        rows_for_delete [OF assms(1) present] present r(2)
      by simp
  qed
qed

text \<open>
  With the row holding 178 in the table, writing \<^verbatim>\<open>None\<close> or the empty string
  deletes it; on the table without a row, writing \<^verbatim>\<open>None\<close> changes nothing. With a
  row of another patient next to it, the row of the patient is the one deleted.
\<close>

theorem save_value_empty_leaves_none_witness:
  "pk ex_height = Some 1 \<and>
   length (rows_for ex_height ex_patient1 (ex_table [ex_row (PInt 178)])) \<le> 1 \<and>
   save_value 11 ex_height ex_patient1 PNone (ex_table [ex_row (PInt 178)]) = (Inr (), ex_table []) \<and>
   save_value 11 ex_height ex_patient1 (PStr []) (ex_table [ex_row (PInt 178)]) = (Inr (), ex_table []) \<and>
   save_value 11 ex_height ex_patient1 PNone ex_empty_table = (Inr (), ex_empty_table) \<and>
   rows_for ex_height ex_patient1 ex_empty_table = [] \<and>
   save_value 11 ex_height ex_patient1 PNone
       (ex_table [(ex_row (PInt 170))\<lparr>value_pk := 0, entity_id := Some 2\<rparr>, ex_row (PInt 178)])
     = (Inr (), ex_table [(ex_row (PInt 170))\<lparr>value_pk := 0, entity_id := Some 2\<rparr>])"
proof -
  let ?t = "ex_table [ex_row (PInt 178)]"
  let ?other = "(ex_row (PInt 170))\<lparr>value_pk := 0, entity_id := Some 2\<rparr>"
  let ?t2 = "ex_table [?other, ex_row (PInt 178)]"
  have h1: "pk ex_height = Some 1" by (simp add: ex_defs)
  have rows: "rows_for ex_height ex_patient1 ?t = [ex_row (PInt 178)]"
    by (simp add: ex_defs rows_for_def has_identity_def)
  have h2: "length (rows_for ex_height ex_patient1 ?t) \<le> 1" using rows by simp
  have del: "value_delete (ex_row (PInt 178)) ?t = ex_table []"
    by (simp add: ex_defs value_delete_def)
  have rows0: "rows_for ex_height ex_patient1 ex_empty_table = []"
    by (simp add: ex_defs rows_for_def)
  have h20: "length (rows_for ex_height ex_patient1 ex_empty_table) \<le> 1" using rows0 by simp
  have rows2: "rows_for ex_height ex_patient1 ?t2 = [ex_row (PInt 178)]"
    by (simp add: ex_defs rows_for_def has_identity_def)
  have h22: "length (rows_for ex_height ex_patient1 ?t2) \<le> 1" using rows2 by simp
  have del2: "value_delete (ex_row (PInt 178)) ?t2 = ex_table [?other]"
    by (simp add: ex_defs value_delete_def)
  show ?thesis
    using save_value_empty_leaves_none [OF h1 h2, of PNone 11]
      save_value_empty_leaves_none [OF h1 h2, of "PStr []" 11]
      save_value_empty_leaves_none [OF h1 h20, of PNone 11]
      save_value_empty_leaves_none [OF h1 h22, of PNone 11]
      h1 h2 rows rows0 rows2 del del2
    by auto
qed

section \<open>C3: writing the same value twice\<close>




section \<open>C6: rows with an empty payload\<close>

text \<open>
  C6, as stated, fails: on the path "not found, value not empty" the row is first
  inserted by \<^verbatim>\<open>Value.objects.create(**entity_filter)\<close>, with no payload, and only then
  given its payload and saved again. Writing 178 for the patient on the table without
  rows goes through a table whose only row, of that identity, holds \<^verbatim>\<open>None\<close>.
\<close>

theorem empty_payload_during_create:
  "save_value_trace 10 ex_height ex_patient1 (PInt 178) ex_empty_table =
     [ex_table [ex_row PNone], ex_table [ex_row (PInt 178)]] \<and>
   ex_row PNone \<in> set (value_rows (ex_table [ex_row PNone])) \<and>
   ex_row PNone \<in> set (rows_for ex_height ex_patient1 (ex_table [ex_row PNone])) \<and>
   is_empty (val (ex_row PNone))"
  by (simp add: save_value_trace_def save_value_found_trace_def sv_defs ex_defs)

text \<open>
  C6, amended. For a saved attribute and a table with unique primary keys and at most
  one row for the identity: once the call has returned, no row of the identity has an
  empty payload; an empty write leaves no row of the identity and creates nothing
  (the row only comes into being with a write that is not empty, after which there is
  exactly one); and when no row of the table had an empty payload before the call,
  none has one after it.
\<close>

theorem no_empty_payload_after_call:
  assumes "pk self = Some a" "table_ok t" "length (rows_for self e t) \<le> 1"
  shows "\<exists>t'. save_value now self e v t = (Inr (), t') \<and>
           (\<forall>r \<in> set (rows_for self e t'). \<not> is_empty (val r)) \<and>
           (is_empty v \<longrightarrow> rows_for self e t' = []) \<and>
           (is_empty v \<longrightarrow> rows_for self e t = [] \<longrightarrow> t' = t) \<and>
           (\<not> is_empty v \<longrightarrow> (\<exists>r. rows_for self e t' = [r])) \<and>
           ((\<forall>r \<in> set (value_rows t). \<not> is_empty (val r)) \<longrightarrow>
            (\<forall>r \<in> set (value_rows t'). \<not> is_empty (val r)))"
proof -
  obtain t' where t': "save_value now self e v t = (Inr (), t')"
    and rows: "if is_empty v then rows_for self e t' = []
      else \<exists>r. rows_for self e t' = [r] \<and> (val r = v \<or> py_eq v (val r))"
    using save_value_step [OF assms, of now v] by blast
  have a: "\<forall>r \<in> set (rows_for self e t'). \<not> is_empty (val r)"
    using rows py_eq_keeps_nonempty [of v] by (cases "is_empty v") auto
  have b: "is_empty v \<longrightarrow> rows_for self e t' = []" using rows by simp
  have c: "is_empty v \<longrightarrow> rows_for self e t = [] \<longrightarrow> t' = t"
    using save_value_absent_empty [OF assms(1), of e t v now] t' by auto
  have d: "\<not> is_empty v \<longrightarrow> (\<exists>r. rows_for self e t' = [r])" using rows by auto
  have e: "(\<forall>r \<in> set (value_rows t). \<not> is_empty (val r)) \<longrightarrow>
            (\<forall>r \<in> set (value_rows t'). \<not> is_empty (val r))"
    using save_value_rows_origin [OF assms t'] by auto
  show ?thesis using t' a b c d e by blast
qed

text \<open>Writing 178 on the table without rows: the one row afterwards holds 178.\<close>

theorem no_empty_payload_after_call_witness:
  "pk ex_height = Some 1 \<and> table_ok ex_empty_table \<and>
   length (rows_for ex_height ex_patient1 ex_empty_table) \<le> 1 \<and>
   save_value 10 ex_height ex_patient1 (PInt 178) ex_empty_table
     = (Inr (), ex_table [ex_row (PInt 178)]) \<and>
   rows_for ex_height ex_patient1 (ex_table [ex_row (PInt 178)]) = [ex_row (PInt 178)] \<and>
   \<not> is_empty (val (ex_row (PInt 178))) \<and>
   (\<exists>t'. save_value 10 ex_height ex_patient1 (PInt 178) ex_empty_table = (Inr (), t') \<and>
      list_all (\<lambda>r. \<not> is_empty (val r)) (rows_for ex_height ex_patient1 t') \<and>
      list_all (\<lambda>r. \<not> is_empty (val r)) (value_rows t'))"
proof -
  have h1: "pk ex_height = Some 1" by (simp add: ex_defs)
  have h2: "table_ok ex_empty_table" by (simp add: ex_defs table_ok_def)
  have h3: "length (rows_for ex_height ex_patient1 ex_empty_table) \<le> 1"
    by (simp add: ex_defs rows_for_matches)
  have h4: "\<forall>r \<in> set (value_rows ex_empty_table). \<not> is_empty (val r)"
    by (simp add: ex_defs)
  have ev: "save_value 10 ex_height ex_patient1 (PInt 178) ex_empty_table
     = (Inr (), ex_table [ex_row (PInt 178)])"
    by (simp add: sv_defs ex_defs)
  have rows: "rows_for ex_height ex_patient1 (ex_table [ex_row (PInt 178)]) = [ex_row (PInt 178)]"
    by (simp add: sv_defs ex_defs)
  have ne: "\<not> is_empty (val (ex_row (PInt 178)))" by (simp add: ex_defs is_empty_def)
  show ?thesis
    using no_empty_payload_after_call [OF h1 h2 h3, of 10 "PInt 178"] h1 h2 h3 h4 ev rows ne
    by (auto simp: list_all_iff)
qed

section \<open>C10: only None and the empty string are empty\<close>

text \<open>
  C10. Exactly \<^verbatim>\<open>None\<close> and the empty string pass the test
  \<^verbatim>\<open>value is None or value == ''\<close>. For every other value, and so for the falsy values
  \<^verbatim>\<open>0\<close>, \<^verbatim>\<open>False\<close>, \<^verbatim>\<open>0.0\<close> and the empty list, a call on a saved attribute and
  a table with unique primary keys and at most one row for the identity takes the
  path for values that are not empty: it returns normally and leaves exactly one row
  for the identity, whose payload is the value or equals it (and equals it whenever
  the value is not NaN and holds none). When there was no row, the row is
  created and holds the value; when there was one, it is kept (never deleted): left
  as it is when its payload already equals the value, and overwritten with the value
  and saved otherwise.
\<close>

theorem only_none_and_empty_string_are_empty:
  assumes "pk self = Some a" "table_ok t" "length (rows_for self e t) \<le> 1"
    "v \<noteq> PNone" "v \<noteq> PStr []"
  shows "\<not> is_empty v \<and>
    (\<exists>t' r. save_value now self e v t = (Inr (), t') \<and>
       rows_for self e t' = [r] \<and>
       (val r = v \<or> py_eq v (val r)) \<and> (nan_free v \<longrightarrow> py_eq v (val r)) \<and>
       (rows_for self e t = [] \<longrightarrow>
          t' = t\<lparr>value_rows := value_rows t @ [r], value_next_pk := Suc (value_next_pk t)\<rparr> \<and>
          val r = v) \<and>
       (\<forall>r0. rows_for self e t = [r0] \<longrightarrow>
          (if py_eq v (val r0) then t' = t \<and> r = r0
           else t' = value_save now (r0\<lparr>val := v\<rparr>) t \<and>
                r = r0\<lparr>val := v, value_modified := now\<rparr>)))"
proof -
  have ne: "\<not> is_empty v" using assms(4,5) by (simp add: is_empty_iff)
  consider (absent) "rows_for self e t = []" | (present) r0 where "rows_for self e t = [r0]"
    using at_most_one_cases [OF assms(3)] by blast
  then have "\<exists>t' r. save_value now self e v t = (Inr (), t') \<and>
       rows_for self e t' = [r] \<and>
       (val r = v \<or> py_eq v (val r)) \<and> (nan_free v \<longrightarrow> py_eq v (val r)) \<and>
       (rows_for self e t = [] \<longrightarrow>
          t' = t\<lparr>value_rows := value_rows t @ [r], value_next_pk := Suc (value_next_pk t)\<rparr> \<and>
          val r = v) \<and>
       (\<forall>r0. rows_for self e t = [r0] \<longrightarrow>
          (if py_eq v (val r0) then t' = t \<and> r = r0
           else t' = value_save now (r0\<lparr>val := v\<rparr>) t \<and>
                r = r0\<lparr>val := v, value_modified := now\<rparr>))"
  proof cases
    case absent
    then show ?thesis
      using save_value_absent_set [OF assms(1) absent ne assms(2), of now]
        rows_for_created [OF assms(1) absent, of now v]
      by (simp add: py_eq_refl)
  next
    case present
    show ?thesis
    proof (cases "py_eq v (val r0)")
      case True
      then show ?thesis
        using save_value_present_same [OF assms(1) present ne True, of now] present
        by simp
    next
      case False
      then show ?thesis
        using save_value_present_differs [OF assms(1) present ne False, of now]
          rows_for_save [OF assms(1) present assms(2), of now v] present
        by (simp add: py_eq_refl)
    qed
  qed
  then show ?thesis using ne by blast
qed

text \<open>
  The falsy values \<^verbatim>\<open>0\<close>, \<^verbatim>\<open>False\<close>, \<^verbatim>\<open>0.0\<close> and \<^verbatim>\<open>[]\<close> are stored on the table
  without rows, and \<^verbatim>\<open>[]\<close> overwrites a stored 178.
\<close>

theorem only_none_and_empty_string_are_empty_witness:
  "pk ex_height = Some 1 \<and> table_ok ex_empty_table \<and>
   length (rows_for ex_height ex_patient1 ex_empty_table) \<le> 1 \<and>
   PInt 0 \<noteq> PNone \<and> PInt 0 \<noteq> PStr [] \<and> \<not> is_empty (PInt 0) \<and>
   (\<exists>t' r. save_value 10 ex_height ex_patient1 (PInt 0) ex_empty_table = (Inr (), t') \<and>
      rows_for ex_height ex_patient1 t' = [r] \<and> val r = PInt 0) \<and>
   \<not> is_empty (PBool False) \<and> \<not> is_empty (PFloat 0) \<and> \<not> is_empty (PList []) \<and>
   save_value 10 ex_height ex_patient1 (PInt 0) ex_empty_table
     = (Inr (), ex_table [ex_row (PInt 0)]) \<and>
   save_value 10 ex_height ex_patient1 (PBool False) ex_empty_table
     = (Inr (), ex_table [ex_row (PBool False)]) \<and>
   save_value 10 ex_height ex_patient1 (PFloat 0) ex_empty_table
     = (Inr (), ex_table [ex_row (PFloat 0)]) \<and>
   save_value 10 ex_height ex_patient1 (PList []) ex_empty_table
     = (Inr (), ex_table [ex_row (PList [])]) \<and>
   save_value 10 ex_height ex_patient1 (PList []) (ex_table [ex_row (PInt 178)])
     = (Inr (), ex_table [ex_row (PList [])])"
proof -
  have h1: "pk ex_height = Some 1" by (simp add: ex_defs)
  have h2: "table_ok ex_empty_table" by (simp add: ex_defs table_ok_def)
  have h3: "length (rows_for ex_height ex_patient1 ex_empty_table) \<le> 1"
    by (simp add: ex_defs rows_for_matches)
  have h4: "PInt 0 \<noteq> PNone" "PInt 0 \<noteq> PStr []" by simp_all
  have r0: "rows_for ex_height ex_patient1 ex_empty_table = []"
    by (simp add: ex_defs rows_for_matches)
  have i: "\<not> is_empty (PInt 0)"
    "\<exists>t' r. save_value 10 ex_height ex_patient1 (PInt 0) ex_empty_table = (Inr (), t') \<and>
      rows_for ex_height ex_patient1 t' = [r] \<and> val r = PInt 0"
    using only_none_and_empty_string_are_empty [OF h1 h2 h3 h4, of 10] r0 by blast+
  have rest: "\<not> is_empty (PBool False)" "\<not> is_empty (PFloat 0)" "\<not> is_empty (PList [])"
    by (simp_all add: is_empty_def)
  have ev: "save_value 10 ex_height ex_patient1 (PInt 0) ex_empty_table
     = (Inr (), ex_table [ex_row (PInt 0)])"
    "save_value 10 ex_height ex_patient1 (PBool False) ex_empty_table
     = (Inr (), ex_table [ex_row (PBool False)])"
    "save_value 10 ex_height ex_patient1 (PFloat 0) ex_empty_table
     = (Inr (), ex_table [ex_row (PFloat 0)])"
    "save_value 10 ex_height ex_patient1 (PList []) ex_empty_table
     = (Inr (), ex_table [ex_row (PList [])])"
    "save_value 10 ex_height ex_patient1 (PList []) (ex_table [ex_row (PInt 178)])
     = (Inr (), ex_table [ex_row (PList [])])"
    by (simp_all add: sv_defs ex_defs)
  show ?thesis using h1 h2 h3 h4 i rest ev by simp
qed

section \<open>C7: validator dispatch is total on the datatype enumeration\<close>

lemma datatype_tags: "map fst DATATYPE_CHOICES =
    [''text'', ''date'', ''float'', ''int'', ''bool'', ''object'', ''enum'', ''json'', ''csv'']"
  by (simp add: DATATYPE_CHOICES_def TYPE_TEXT_def TYPE_FLOAT_def TYPE_INT_def TYPE_DATE_def
      TYPE_BOOLEAN_def TYPE_OBJECT_def TYPE_ENUM_def TYPE_JSON_def TYPE_CSV_def)

text \<open>The validator registered for a datatype tag, when there is one.\<close>

lemma validators_table:
  "map_of DATATYPE_VALIDATORS ''text'' = Some validate_text"
  "map_of DATATYPE_VALIDATORS ''float'' = Some validate_float"
  "map_of DATATYPE_VALIDATORS ''int'' = Some validate_int"
  "map_of DATATYPE_VALIDATORS ''date'' = Some validate_date"
  "map_of DATATYPE_VALIDATORS ''bool'' = Some validate_bool"
  "map_of DATATYPE_VALIDATORS ''object'' = Some validate_object"
  "map_of DATATYPE_VALIDATORS ''enum'' = Some validate_enum"
  "map_of DATATYPE_VALIDATORS ''json'' = Some validate_json"
  "map_of DATATYPE_VALIDATORS ''csv'' = Some validate_csv"
  by (simp_all add: DATATYPE_VALIDATORS_def)

lemma datatype_tag_cases:
  assumes "d \<in> fst ` set DATATYPE_CHOICES"
  shows "d = ''text'' \<or> d = ''date'' \<or> d = ''float'' \<or> d = ''int'' \<or> d = ''bool'' \<or>
    d = ''object'' \<or> d = ''enum'' \<or> d = ''json'' \<or> d = ''csv''"
proof -
  have "d \<in> set (map fst DATATYPE_CHOICES)" using assms by simp
  then show ?thesis unfolding datatype_tags by simp
qed

text \<open>
  C7. For every attribute whose datatype is one of the nine tags of
  \<^verbatim>\<open>DATATYPE_CHOICES\<close> (text, date, float, int, bool, object, enum, json, csv),
  \<^verbatim>\<open>get_validators\<close> returns, without raising, a list of exactly one validator;
  two different tags never have the same validator; and the keys of the dispatch
  dictionary are exactly those nine tags.
\<close>

theorem get_validators_total_one_to_one:
  "(attr_datatype self \<in> fst ` set DATATYPE_CHOICES \<longrightarrow>
      (\<exists>f. get_validators self = Inr [f])) \<and>
   (\<forall>d \<in> fst ` set DATATYPE_CHOICES. \<forall>d' \<in> fst ` set DATATYPE_CHOICES.
      get_validators (self\<lparr>attr_datatype := d\<rparr>) = get_validators (self\<lparr>attr_datatype := d'\<rparr>)
      \<longrightarrow> d = d') \<and>
   fst ` set DATATYPE_VALIDATORS = fst ` set DATATYPE_CHOICES"
proof (intro conjI impI ballI)
  assume "attr_datatype self \<in> fst ` set DATATYPE_CHOICES"
  from datatype_tag_cases [OF this]
  show "\<exists>f. get_validators self = Inr [f]"
    by (auto simp: get_validators_def validators_table)
next
  fix d d'
  assume d: "d \<in> fst ` set DATATYPE_CHOICES" and d': "d' \<in> fst ` set DATATYPE_CHOICES"
    and eq: "get_validators (self\<lparr>attr_datatype := d\<rparr>) = get_validators (self\<lparr>attr_datatype := d'\<rparr>)"
  show "d = d'"
    using datatype_tag_cases [OF d] datatype_tag_cases [OF d'] eq
    by (auto simp: get_validators_def validators_table)
next
  have "fst ` set DATATYPE_CHOICES = set (map fst DATATYPE_CHOICES)" by simp
  then show "fst ` set DATATYPE_VALIDATORS = fst ` set DATATYPE_CHOICES"
    unfolding datatype_tags by (auto simp: DATATYPE_VALIDATORS_def)
qed

text \<open>The integer attribute gets the integer validator, the enum attribute the enum validator.\<close>

theorem get_validators_total_one_to_one_witness:
  "attr_datatype ex_height \<in> fst ` set DATATYPE_CHOICES \<and>
   get_validators ex_height = Inr [validate_int] \<and>
   attr_datatype ex_fever \<in> fst ` set DATATYPE_CHOICES \<and>
   get_validators ex_fever = Inr [validate_enum] \<and>
   get_validators ex_height \<noteq> get_validators ex_fever"
proof -
  have h: "attr_datatype ex_height \<in> fst ` set DATATYPE_CHOICES"
    "attr_datatype ex_fever \<in> fst ` set DATATYPE_CHOICES"
    by (simp_all add: ex_height_def ex_fever_def DATATYPE_CHOICES_def TYPE_INT_def TYPE_ENUM_def)
  have g: "get_validators ex_height = Inr [validate_int]"
    "get_validators ex_fever = Inr [validate_enum]"
    by (simp_all add: get_validators_def validators_table ex_height_def ex_fever_def)
  show ?thesis
    using get_validators_total_one_to_one [of ex_height] h g by simp
qed

section \<open>C9: get\_choices\<close>

text \<open>
  C9. \<^verbatim>\<open>get_choices\<close> returns the members of the attribute's enum group when the
  datatype is enum (the attribute having its group, as invariant I1 demands), and
  returns \<^verbatim>\<open>None\<close> for every other datatype. An enum attribute whose group has no
  members gets the empty collection, which is not \<^verbatim>\<open>None\<close>.
\<close>

theorem get_choices_enum_or_none:
  "(attr_datatype self = TYPE_ENUM \<longrightarrow> enum_group self = Some g \<longrightarrow>
      get_choices self = Inr (Some (eg_values g))) \<and>
   (attr_datatype self \<noteq> TYPE_ENUM \<longrightarrow> get_choices self = Inr None) \<and>
   (attr_datatype self = TYPE_ENUM \<longrightarrow> enum_group self = Some g \<longrightarrow> eg_values g = [] \<longrightarrow>
      get_choices self = Inr (Some []) \<and> get_choices self \<noteq> Inr None)"
  by (simp add: get_choices_def)

text \<open>
  The fever attribute has its three choices, the height attribute has \<^verbatim>\<open>None\<close>, and
  the fever attribute over an emptied group has the empty collection.
\<close>

theorem get_choices_enum_or_none_witness:
  "attr_datatype ex_fever = TYPE_ENUM \<and> enum_group ex_fever = Some ex_ynu \<and>
   get_choices ex_fever = Inr (Some [ex_yes, ex_no, ex_unknown]) \<and>
   attr_datatype ex_height \<noteq> TYPE_ENUM \<and> get_choices ex_height = Inr None \<and>
   get_choices (ex_fever\<lparr>enum_group := Some (ex_ynu\<lparr>eg_values := []\<rparr>)\<rparr>) = Inr (Some []) \<and>
   get_choices (ex_fever\<lparr>enum_group := Some (ex_ynu\<lparr>eg_values := []\<rparr>)\<rparr>) \<noteq> Inr None"
proof -
  have f: "attr_datatype ex_fever = TYPE_ENUM" "enum_group ex_fever = Some ex_ynu"
    by (simp_all add: ex_fever_def TYPE_ENUM_def)
  have h: "attr_datatype ex_height \<noteq> TYPE_ENUM"
    by (simp add: ex_height_def TYPE_ENUM_def)
  have v: "eg_values ex_ynu = [ex_yes, ex_no, ex_unknown]" by (simp add: ex_ynu_def)
  show ?thesis
    using get_choices_enum_or_none [of ex_fever ex_ynu]
      get_choices_enum_or_none [of ex_height ex_ynu]
      get_choices_enum_or_none [of "ex_fever\<lparr>enum_group := Some (ex_ynu\<lparr>eg_values := []\<rparr>)\<rparr>"
        "ex_ynu\<lparr>eg_values := []\<rparr>"]
      f h v
    by simp
qed

section \<open>C4: enum membership in validate\_value\<close>

lemma get_validators_enum:
  "attr_datatype self = TYPE_ENUM \<Longrightarrow> get_validators self = Inr [validate_enum]"
  by (simp add: get_validators_def DATATYPE_VALIDATORS_def TYPE_ENUM_def)

lemma group_has_value_iff:
  "group_has_value other g v =
     (\<exists>s. lookup_text other v = Some s \<and> s \<in> ev_value ` set (eg_values g))"
  by (auto simp: group_has_value_def filter_empty_conv split: option.splits)

text \<open>
  C4, as stated, fails in both directions. The enum validator runs first and its error
  leaves the function: with a validator that refuses an \<^verbatim>\<open>EnumValue\<close> that has not
  been saved, such a value is refused although its label "yes" is a member's label,
  and the error names neither the value nor the attribute. And the lookup on the
  label column compares the column with \<^verbatim>\<open>str(value)\<close>: the integer 1 is accepted for
  a group whose labels are "1" and "2", although 1 is neither a member nor a label.
\<close>

theorem validate_value_not_membership:
  "validate_value reject_unsaved ex_repr ex_fever (PEnumValue \<lparr>ev_pk = None, ev_value = ''yes''\<rparr>)
     = Inl (ValidationError ''EnumValue has not been saved yet'' []) \<and>
   enum_label (PEnumValue \<lparr>ev_pk = None, ev_value = ''yes''\<rparr>)
     \<in> PStr ` ev_value ` set (eg_values ex_ynu) \<and>
   enum_group ex_fever = Some ex_ynu \<and>
   validate_value accept_all ex_repr ex_rating (PInt 1) = Inr () \<and>
   enum_group ex_rating =
     Some \<lparr>eg_pk = Some 2, eg_name = ''Rating'',
       eg_values = [\<lparr>ev_pk = Some 4, ev_value = ''1''\<rparr>, \<lparr>ev_pk = Some 5, ev_value = ''2''\<rparr>]\<rparr> \<and>
   enum_label (PInt 1) \<notin> PStr ` ev_value `
     set [\<lparr>ev_pk = Some 4, ev_value = ''1''\<rparr>, \<lparr>ev_pk = Some 5, ev_value = ''2''\<rparr>]"
  by (simp add: validate_value_def get_validators_def DATATYPE_VALIDATORS_def TYPE_ENUM_def
      group_has_value_def lookup_text_def enum_label_def str_int_def digits.simps digit_char_def
      reject_unsaved_def accept_all_def ex_fever_def ex_ynu_def ex_yes_def ex_no_def
      ex_unknown_def ex_rating_def Let_def)

text \<open>
  C4, amended. Let the attribute be enum-typed with its group set. Whatever the
  validators do, \<^verbatim>\<open>validate_value(x)\<close> returns normally exactly when the enum validator
  accepts \<open>x\<close> and some member of the group has, as its label, the text the lookup
  compares with: \<open>x\<close> itself when it is a string, its label when it is an
  \<^verbatim>\<open>EnumValue\<close>, and \<^verbatim>\<open>str(x)\<close> otherwise (\<^verbatim>\<open>None\<close> is never found). When the enum
  validator accepts \<open>x\<close> and there is no such member, it raises the
  \<^verbatim>\<open>ValidationError\<close> whose message is formatted with that value and the attribute.
  When the enum validator raises, that error is what \<^verbatim>\<open>validate_value\<close> raises.
\<close>

theorem validate_value_enum_membership:
  assumes "attr_datatype self = TYPE_ENUM" "enum_group self = Some g"
  shows "(validate_value run other self x = Inr ()) =
           (run validate_enum x = Inr () \<and>
            (\<exists>s. lookup_text other (enum_label x) = Some s \<and> s \<in> ev_value ` set (eg_values g))) \<and>
         (run validate_enum x = Inr () \<longrightarrow>
          \<not> (\<exists>s. lookup_text other (enum_label x) = Some s \<and> s \<in> ev_value ` set (eg_values g)) \<longrightarrow>
          validate_value run other self x =
            Inl (ValidationError MSG_NOT_A_CHOICE
                  [(''val'', ArgVal (enum_label x)), (''attr'', ArgAttr self)])) \<and>
         (\<forall>err. run validate_enum x = Inl err \<longrightarrow> validate_value run other self x = Inl err)"
  using assms
  by (cases "run validate_enum x")
     (simp_all add: validate_value_def get_validators_enum group_has_value_iff Let_def)

text \<open>
  The scenario of the spec, with validators that accept: "yes" and the \<^verbatim>\<open>EnumValue\<close>
  "no" are valid for the fever attribute, "maybe" is not, as a string or as an
  \<^verbatim>\<open>EnumValue\<close>.
\<close>

theorem validate_value_enum_membership_witness:
  "attr_datatype ex_fever = TYPE_ENUM \<and> enum_group ex_fever = Some ex_ynu \<and>
   validate_value accept_all ex_repr ex_fever (PStr ''yes'') = Inr () \<and>
   validate_value accept_all ex_repr ex_fever (PEnumValue ex_no) = Inr () \<and>
   validate_value accept_all ex_repr ex_fever (PStr ''maybe'') =
     Inl (ValidationError ''%(val)s is not a valid choice for %(attr)s''
           [(''val'', ArgVal (PStr ''maybe'')), (''attr'', ArgAttr ex_fever)]) \<and>
   validate_value accept_all ex_repr ex_fever (PEnumValue \<lparr>ev_pk = Some 9, ev_value = ''maybe''\<rparr>) =
     Inl (ValidationError ''%(val)s is not a valid choice for %(attr)s''
           [(''val'', ArgVal (PStr ''maybe'')), (''attr'', ArgAttr ex_fever)])"
proof -
  have h1: "attr_datatype ex_fever = TYPE_ENUM" by (simp add: ex_fever_def TYPE_ENUM_def)
  have h2: "enum_group ex_fever = Some ex_ynu" by (simp add: ex_fever_def)
  have v: "eg_values ex_ynu = [ex_yes, ex_no, ex_unknown]" by (simp add: ex_ynu_def)
  show ?thesis
    using validate_value_enum_membership [OF h1 h2, of accept_all ex_repr "PStr ''yes''"]
      validate_value_enum_membership [OF h1 h2, of accept_all ex_repr "PEnumValue ex_no"]
      validate_value_enum_membership [OF h1 h2, of accept_all ex_repr "PStr ''maybe''"]
      validate_value_enum_membership [OF h1 h2, of accept_all ex_repr
        "PEnumValue \<lparr>ev_pk = Some 9, ev_value = ''maybe''\<rparr>"]
      h1 h2
    by (simp add: v enum_label_def lookup_text_def accept_all_def ex_yes_def ex_no_def
        ex_unknown_def MSG_NOT_A_CHOICE_def)
qed

section \<open>C5: clean and the enum group invariant\<close>

lemma clean_slug: "clean (self\<lparr>slug := s\<rparr>) = clean self"
  by (simp add: clean_def)

lemma save_clean_fails:
  assumes "clean self = Inl err"
  shows "fst (save generate_slug now self t) = Inl err \<and>
    snd (snd (save generate_slug now self t)) = t"
  using assms by (simp add: save_def full_clean_def Let_def clean_slug)

text \<open>
  C5. \<^verbatim>\<open>clean\<close> raises a \<^verbatim>\<open>ValidationError\<close> when the datatype is enum and no group
  is set, and a \<^verbatim>\<open>ValidationError\<close> with another message when the datatype is not
  enum and a group is set; in both cases \<^verbatim>\<open>save\<close> raises that error and leaves the
  table as it was. An enum attribute with a group and a non-enum attribute without
  one pass \<^verbatim>\<open>clean\<close>. (The attribute object itself has had its slug filled in by
  then when it was blank.)
\<close>

theorem clean_enforces_enum_group_invariant:
  "(attr_datatype self = TYPE_ENUM \<and> enum_group self = None \<longrightarrow>
      clean self = Inl (ValidationError MSG_MUST_SET_GROUP []) \<and>
      fst (save generate_slug now self t) = Inl (ValidationError MSG_MUST_SET_GROUP []) \<and>
      snd (snd (save generate_slug now self t)) = t) \<and>
   (attr_datatype self \<noteq> TYPE_ENUM \<and> enum_group self \<noteq> None \<longrightarrow>
      clean self = Inl (ValidationError MSG_ONLY_ENUM_GROUP []) \<and>
      fst (save generate_slug now self t) = Inl (ValidationError MSG_ONLY_ENUM_GROUP []) \<and>
      snd (snd (save generate_slug now self t)) = t) \<and>
   MSG_MUST_SET_GROUP \<noteq> MSG_ONLY_ENUM_GROUP \<and>
   ((attr_datatype self = TYPE_ENUM \<and> enum_group self \<noteq> None) \<or>
    (attr_datatype self \<noteq> TYPE_ENUM \<and> enum_group self = None) \<longrightarrow>
      clean self = Inr ())"
proof (intro conjI impI)
  assume a: "attr_datatype self = TYPE_ENUM \<and> enum_group self = None"
  then show c: "clean self = Inl (ValidationError MSG_MUST_SET_GROUP [])"
    by (simp add: clean_def)
  from save_clean_fails [OF c, of generate_slug now t]
  show "fst (save generate_slug now self t) = Inl (ValidationError MSG_MUST_SET_GROUP [])"
    and "snd (snd (save generate_slug now self t)) = t"
    by simp_all
next
  assume a: "attr_datatype self \<noteq> TYPE_ENUM \<and> enum_group self \<noteq> None"
  then show c: "clean self = Inl (ValidationError MSG_ONLY_ENUM_GROUP [])"
    by (simp add: clean_def)
  from save_clean_fails [OF c, of generate_slug now t]
  show "fst (save generate_slug now self t) = Inl (ValidationError MSG_ONLY_ENUM_GROUP [])"
    and "snd (snd (save generate_slug now self t)) = t"
    by simp_all
next
  show "MSG_MUST_SET_GROUP \<noteq> MSG_ONLY_ENUM_GROUP"
    by (simp add: MSG_MUST_SET_GROUP_def MSG_ONLY_ENUM_GROUP_def)
next
  assume "(attr_datatype self = TYPE_ENUM \<and> enum_group self \<noteq> None) \<or>
    (attr_datatype self \<noteq> TYPE_ENUM \<and> enum_group self = None)"
  then show "clean self = Inr ()"
    by (auto simp: clean_def)
qed

text \<open>
  The fever attribute without its group and the height attribute with a group are
  rejected and the table is unchanged; the two attributes as they are pass.
\<close>

theorem clean_enforces_enum_group_invariant_witness:
  "clean (ex_fever\<lparr>enum_group := None\<rparr>)
     = Inl (ValidationError ''You must set the choice group for multiple choice attributes'' []) \<and>
   save ex_slugify 20 (ex_fever\<lparr>enum_group := None\<rparr>) ex_attributes
     = (Inl (ValidationError ''You must set the choice group for multiple choice attributes'' []),
        ex_fever\<lparr>enum_group := None\<rparr>, ex_attributes) \<and>
   clean (ex_height\<lparr>enum_group := Some ex_ynu\<rparr>)
     = Inl (ValidationError ''You can only assign a choice group to multiple choice attributes'' []) \<and>
   save ex_slugify 20 (ex_height\<lparr>enum_group := Some ex_ynu\<rparr>) ex_attributes
     = (Inl (ValidationError ''You can only assign a choice group to multiple choice attributes'' []),
        ex_height\<lparr>enum_group := Some ex_ynu\<rparr>, ex_attributes) \<and>
   clean ex_fever = Inr () \<and> clean ex_height = Inr () \<and>
   fst (save ex_slugify 20 ex_fever ex_attributes) = Inr () \<and>
   fst (save ex_slugify 20 ex_height ex_attributes) = Inr ()"
proof -
  have f: "attr_datatype ex_fever = TYPE_ENUM" "enum_group ex_fever = Some ex_ynu"
    "slug ex_fever = Some ''has_fever''"
    by (simp_all add: ex_fever_def TYPE_ENUM_def)
  have h: "attr_datatype ex_height \<noteq> TYPE_ENUM" "enum_group ex_height = None"
    "slug ex_height = Some ''height''"
    by (simp_all add: ex_height_def TYPE_ENUM_def)
  have s1: "fst (save ex_slugify 20 ex_fever ex_attributes) = Inr ()"
    "fst (save ex_slugify 20 ex_height ex_attributes) = Inr ()"
    by (simp_all add: save_def full_clean_def clean_def model_save_def slug_taken_def Let_def
        TYPE_ENUM_def ex_attributes_def ex_fever_def ex_height_def)
  show ?thesis
    using clean_enforces_enum_group_invariant [of "ex_fever\<lparr>enum_group := None\<rparr>" ex_slugify 20 ex_attributes]
      clean_enforces_enum_group_invariant [of "ex_height\<lparr>enum_group := Some ex_ynu\<rparr>" ex_slugify 20 ex_attributes]
      clean_enforces_enum_group_invariant [of ex_fever ex_slugify 20 ex_attributes]
      clean_enforces_enum_group_invariant [of ex_height ex_slugify 20 ex_attributes]
      f h s1
    by (simp add: MSG_MUST_SET_GROUP_def MSG_ONLY_ENUM_GROUP_def save_def full_clean_def Let_def)
qed

section \<open>C8: the slug is derived from the name and stays unique\<close>

lemma distinct_replace:
  "distinct (map f xs) \<Longrightarrow> \<forall>x \<in> set xs. x \<noteq> r \<longrightarrow> f x \<noteq> f y \<Longrightarrow>
   distinct (map (\<lambda>x. f (if x = r then y else x)) xs)"
proof (induction xs)
  case Nil
  then show ?case by simp
next
  case (Cons x xs)
  have rest: "distinct (map (\<lambda>x. f (if x = r then y else x)) xs)"
    using Cons by simp
  have fresh: "f (if x = r then y else x) \<noteq> f (if z = r then y else z)" if z: "z \<in> set xs" for z
  proof -
    have "f x \<notin> f ` set xs" using Cons.prems(1) by simp
    then have zx: "z \<noteq> x" "f z \<noteq> f x" using z by (metis imageI)+
    show ?thesis
    proof (cases "x = r")
      case True
      then have "z \<noteq> r" using zx by simp
      then show ?thesis using True Cons.prems(2) z by auto
    next
      case False
      then show ?thesis using Cons.prems(2) zx by (cases "z = r") auto
    qed
  qed
  have "(\<lambda>x. f (if x = r then y else x)) x \<notin> (\<lambda>x. f (if x = r then y else x)) ` set xs"
    using fresh by blast
  then show ?case using rest by simp
qed

lemma model_save_rows:
  "\<not> slug_taken self t \<Longrightarrow>
   attr_rows (snd (snd (model_save now self t))) =
     (case pk self of
        None \<Rightarrow> attr_rows t @ [self\<lparr>modified := now, pk := Some (attr_next_pk t)\<rparr>]
      | Some i \<Rightarrow>
          if \<exists>r \<in> set (attr_rows t). pk r = Some i then
            map (\<lambda>r. if pk r = Some i then self\<lparr>modified := now\<rparr> else r) (attr_rows t)
          else attr_rows t @ [self\<lparr>modified := now\<rparr>])"
  by (auto simp: model_save_def slug_taken_def Let_def split: option.splits)

lemma model_save_slugs_distinct:
  assumes "attribute_table_ok t" "\<not> slug_taken self t"
  shows "distinct (map slug (attr_rows (snd (snd (model_save now self t)))))"
proof (cases "pk self")
  case None
  have "slug self \<notin> slug ` set (attr_rows t)"
  proof
    assume "slug self \<in> slug ` set (attr_rows t)"
    then obtain x where x: "x \<in> set (attr_rows t)" "slug x = slug self" by auto
    moreover have "None \<notin> pk ` set (attr_rows t)"
      using assms(1) by (simp add: attribute_table_ok_def)
    ultimately have "pk x \<noteq> None" by (metis imageI)
    then show False using assms(2) x None by (auto simp: slug_taken_def)
  qed
  then show ?thesis
    using assms(1) None by (simp add: model_save_rows [OF assms(2)] attribute_table_ok_def)
next
  case (Some i)
  show ?thesis
  proof (cases "\<exists>r \<in> set (attr_rows t). pk r = Some i")
    case True
    then obtain r where r: "r \<in> set (attr_rows t)" "pk r = Some i" by blast
    have d: "distinct (map pk (attr_rows t))" using assms(1) by (simp add: attribute_table_ok_def)
    have m: "map (\<lambda>x. if pk x = Some i then self\<lparr>modified := now\<rparr> else x) (attr_rows t)
        = map (\<lambda>x. if x = r then self\<lparr>modified := now\<rparr> else x) (attr_rows t)"
      using map_replace_by_key [OF d r(1), of "self\<lparr>modified := now\<rparr>"] r(2) by simp
    have others: "\<forall>x \<in> set (attr_rows t). x \<noteq> r \<longrightarrow> slug x \<noteq> slug (self\<lparr>modified := now\<rparr>)"
    proof (intro ballI impI)
      fix x assume x: "x \<in> set (attr_rows t)" "x \<noteq> r"
      have "pk x \<noteq> pk r" using d x r(1) by (auto simp: distinct_map dest: inj_onD)
      then have "pk x \<noteq> pk self" using r(2) Some by simp
      then show "slug x \<noteq> slug (self\<lparr>modified := now\<rparr>)"
        using assms(2) x(1) by (auto simp: slug_taken_def)
    qed
    have ds: "distinct (map slug (attr_rows t))"
      using assms(1) by (simp add: attribute_table_ok_def)
    have rows: "attr_rows (snd (snd (model_save now self t))) =
        map (\<lambda>x. if x = r then self\<lparr>modified := now\<rparr> else x) (attr_rows t)"
      using True Some m by (simp add: model_save_rows [OF assms(2)])
    show ?thesis
      unfolding rows map_map o_def by (rule distinct_replace [OF ds others])
  next
    case False
    have "slug self \<notin> slug ` set (attr_rows t)"
    proof
      assume "slug self \<in> slug ` set (attr_rows t)"
      then obtain x where x: "x \<in> set (attr_rows t)" "slug x = slug self" by auto
      then have "pk x \<noteq> pk self" using False Some by auto
      then show False using assms(2) x by (auto simp: slug_taken_def)
    qed
    then show ?thesis
      using False Some assms(1) by (simp add: model_save_rows [OF assms(2)] attribute_table_ok_def)
  qed
qed

lemma model_save_taken:
  "slug_taken self t \<Longrightarrow>
   model_save now self t = (Inl (IntegrityError ''slug''), self\<lparr>modified := now\<rparr>, t)"
  by (simp add: model_save_def slug_taken_def Let_def)

lemma model_save_written:
  assumes "\<not> slug_taken self t"
  shows "fst (model_save now self t) = Inr () \<and>
   (\<exists>r \<in> set (attr_rows (snd (snd (model_save now self t)))).
      slug r = slug self \<and> name r = name self)"
proof
  show "fst (model_save now self t) = Inr ()"
    using assms by (simp add: model_save_def slug_taken_def Let_def split: option.splits)
  show "\<exists>r \<in> set (attr_rows (snd (snd (model_save now self t)))).
      slug r = slug self \<and> name r = name self"
  proof (cases "pk self")
    case None
    then show ?thesis by (simp add: model_save_rows [OF assms])
  next
    case (Some i)
    show ?thesis
    proof (cases "\<exists>r \<in> set (attr_rows t). pk r = Some i")
      case True
      then obtain r where r: "r \<in> set (attr_rows t)" "pk r = Some i" by blast
      have "self\<lparr>modified := now\<rparr> \<in>
          set (map (\<lambda>r. if pk r = Some i then self\<lparr>modified := now\<rparr> else r) (attr_rows t))"
        using r by (auto simp: image_iff intro!: bexI [of _ r])
      moreover have "attr_rows (snd (snd (model_save now self t))) =
          map (\<lambda>r. if pk r = Some i then self\<lparr>modified := now\<rparr> else r) (attr_rows t)"
        using True Some by (simp add: model_save_rows [OF assms])
      ultimately show ?thesis
        by (intro bexI [of _ "self\<lparr>modified := now\<rparr>"]) simp_all
    next
      case False
      then show ?thesis using Some by (simp add: model_save_rows [OF assms])
    qed
  qed
qed

text \<open>
  C8. Let the slug be blank (\<^verbatim>\<open>None\<close> or empty). Then \<^verbatim>\<open>save\<close> leaves the attribute
  object with the slug \<^verbatim>\<open>generate_slug(name)\<close>, and both the invariant check and the
  write see the attribute with that slug. When the check passes and another row of
  the table holds that slug, \<^verbatim>\<open>save\<close> returns the store's uniqueness error, the table
  is unchanged, and the slug is still \<^verbatim>\<open>generate_slug(name)\<close>: nothing is appended to
  it. When no other row holds it, the attribute is written under that slug, and the
  slugs of a table that was in order are still pairwise different.
\<close>

theorem save_derives_slug_and_keeps_it_unique:
  assumes "slug self = None \<or> slug self = Some []"
  shows "slug (fst (snd (save generate_slug now self t))) = Some (generate_slug (name self)) \<and>
    save generate_slug now self t =
      (case clean (self\<lparr>slug := Some (generate_slug (name self))\<rparr>) of
         Inl err \<Rightarrow> (Inl err, self\<lparr>slug := Some (generate_slug (name self))\<rparr>, t)
       | Inr _ \<Rightarrow> model_save now (self\<lparr>slug := Some (generate_slug (name self))\<rparr>) t) \<and>
    (clean self = Inr () \<longrightarrow>
       (if slug_taken (self\<lparr>slug := Some (generate_slug (name self))\<rparr>) t then
          save generate_slug now self t =
            (Inl (IntegrityError ''slug''),
             self\<lparr>slug := Some (generate_slug (name self)), modified := now\<rparr>, t)
        else
          fst (save generate_slug now self t) = Inr () \<and>
          (\<exists>r \<in> set (attr_rows (snd (snd (save generate_slug now self t)))).
             slug r = Some (generate_slug (name self)) \<and> name r = name self) \<and>
          (attribute_table_ok t \<longrightarrow>
             distinct (map slug (attr_rows (snd (snd (save generate_slug now self t))))))))"
proof -
  let ?self1 = "self\<lparr>slug := Some (generate_slug (name self))\<rparr>"
  have s: "save generate_slug now self t =
      (case clean ?self1 of Inl err \<Rightarrow> (Inl err, ?self1, t) | Inr _ \<Rightarrow> model_save now ?self1 t)"
    using assms by (auto simp: save_def full_clean_def Let_def)
  have a: "slug (fst (snd (save generate_slug now self t))) = Some (generate_slug (name self))"
    unfolding s by (cases "pk self") (auto simp: model_save_def Let_def split: sum.splits)
  have c: "clean self = Inr () \<longrightarrow>
       (if slug_taken ?self1 t then
          save generate_slug now self t = (Inl (IntegrityError ''slug''), ?self1\<lparr>modified := now\<rparr>, t)
        else
          fst (save generate_slug now self t) = Inr () \<and>
          (\<exists>r \<in> set (attr_rows (snd (snd (save generate_slug now self t)))).
             slug r = Some (generate_slug (name self)) \<and> name r = name self) \<and>
          (attribute_table_ok t \<longrightarrow>
             distinct (map slug (attr_rows (snd (snd (save generate_slug now self t)))))))"
  proof
    assume ok: "clean self = Inr ()"
    then have s': "save generate_slug now self t = model_save now ?self1 t"
      unfolding s by (simp add: clean_slug)
    show "if slug_taken ?self1 t then
          save generate_slug now self t = (Inl (IntegrityError ''slug''), ?self1\<lparr>modified := now\<rparr>, t)
        else
          fst (save generate_slug now self t) = Inr () \<and>
          (\<exists>r \<in> set (attr_rows (snd (snd (save generate_slug now self t)))).
             slug r = Some (generate_slug (name self)) \<and> name r = name self) \<and>
          (attribute_table_ok t \<longrightarrow>
             distinct (map slug (attr_rows (snd (snd (save generate_slug now self t))))))"
    proof (cases "slug_taken ?self1 t")
      case True
      then show ?thesis unfolding s' using model_save_taken [OF True, of now] by simp
    next
      case False
      then show ?thesis
        unfolding s' using model_save_written [OF False, of now]
          model_save_slugs_distinct [OF _ False, of now]
        by simp
    qed
  qed
  show ?thesis using a s c by simp
qed

text \<open>
  "Eye Color" is saved under the slug derived by the example slug function; a second
  attribute of the same name is refused and the table is unchanged.
\<close>

theorem save_derives_slug_and_keeps_it_unique_witness:
  "(slug (ex_new_attribute ''Eye Color'') = None \<or> slug (ex_new_attribute ''Eye Color'') = Some []) \<and>
   clean (ex_new_attribute ''Eye Color'') = Inr () \<and>
   attribute_table_ok ex_attributes \<and>
   \<not> slug_taken ((ex_new_attribute ''Eye Color'')\<lparr>slug := Some ''Eye_Color''\<rparr>) ex_attributes \<and>
   save ex_slugify 20 (ex_new_attribute ''Eye Color'') ex_attributes =
     (Inr (), ex_eye_color, \<lparr>attr_rows = [ex_height, ex_fever, ex_eye_color], attr_next_pk = 4\<rparr>) \<and>
   distinct (map slug [ex_height, ex_fever, ex_eye_color]) \<and>
   slug_taken ((ex_new_attribute ''Eye Color'')\<lparr>slug := Some ''Eye_Color''\<rparr>)
     \<lparr>attr_rows = [ex_height, ex_fever, ex_eye_color], attr_next_pk = 4\<rparr> \<and>
   save ex_slugify 21 (ex_new_attribute ''Eye Color'')
       \<lparr>attr_rows = [ex_height, ex_fever, ex_eye_color], attr_next_pk = 4\<rparr> =
     (Inl (IntegrityError ''slug''),
      (ex_new_attribute ''Eye Color'')\<lparr>slug := Some ''Eye_Color'', modified := 21\<rparr>,
      \<lparr>attr_rows = [ex_height, ex_fever, ex_eye_color], attr_next_pk = 4\<rparr>)"
proof -
  let ?new = "ex_new_attribute ''Eye Color''"
  let ?t2 = "\<lparr>attr_rows = [ex_height, ex_fever, ex_eye_color], attr_next_pk = 4\<rparr>"
  have blank: "slug ?new = None \<or> slug ?new = Some []" by (simp add: ex_new_attribute_def)
  have g: "ex_slugify (name ?new) = ''Eye_Color''" by (simp add: ex_new_attribute_def ex_slugify_def)
  have ok: "clean ?new = Inr ()" by (simp add: ex_new_attribute_def clean_def TYPE_ENUM_def)
  have tok: "attribute_table_ok ex_attributes"
    by (simp add: attribute_table_ok_def ex_attributes_def ex_height_def ex_fever_def)
  have free: "\<not> slug_taken (?new\<lparr>slug := Some ''Eye_Color''\<rparr>) ex_attributes"
    by (simp add: slug_taken_def ex_attributes_def ex_height_def ex_fever_def ex_new_attribute_def)
  have taken: "slug_taken (?new\<lparr>slug := Some ''Eye_Color''\<rparr>) ?t2"
    by (simp add: slug_taken_def ex_eye_color_def ex_new_attribute_def)
  have first: "save ex_slugify 20 ?new ex_attributes = (Inr (), ex_eye_color, ?t2)"
    by (simp add: save_def full_clean_def clean_def model_save_def slug_taken_def Let_def
        TYPE_ENUM_def ex_new_attribute_def ex_slugify_def ex_attributes_def ex_height_def
        ex_fever_def ex_eye_color_def)
  have "distinct (map slug (attr_rows (snd (snd (save ex_slugify 20 ?new ex_attributes)))))"
    using save_derives_slug_and_keeps_it_unique [OF blank, of ex_slugify 20 ex_attributes]
      ok free tok
    unfolding g by (auto split: if_splits)
  then have d: "distinct (map slug [ex_height, ex_fever, ex_eye_color])"
    unfolding first by simp
  have second: "save ex_slugify 21 ?new ?t2 =
     (Inl (IntegrityError ''slug''), ?new\<lparr>slug := Some ''Eye_Color'', modified := 21\<rparr>, ?t2)"
    using save_derives_slug_and_keeps_it_unique [OF blank, of ex_slugify 21 ?t2] ok taken
    unfolding g by (auto split: if_splits)
  show ?thesis using blank ok tok free first d taken second by simp
qed

end
